theory Spec2Isabelle
  imports Complex_Main
begin

section \<open>Grid coordinates and containers\<close>

text \<open>
  The viscosity solver of \<^verbatim>\<open>Library/SimTools/ViscositySolver.cpp\<close> works on
  integer grid coordinates (\<^verbatim>\<open>Vec3i\<close>) and on scalar and vector grids. A coordinate is
  a triple of integers; a grid is a total function of the coordinate, and a vector grid
  takes the axis (0, 1 or 2) first. The source stores \<^verbatim>\<open>float\<close> and solves in
  \<^verbatim>\<open>double\<close>; both are idealised here as real numbers, so rounding is not part of
  the model.
\<close>

type_synonym Vec3i = "int \<times> int \<times> int"

fun vget :: "Vec3i \<Rightarrow> nat \<Rightarrow> int" where
  "vget (x, y, z) axis = (if axis = 0 then x else if axis = 1 then y else z)"

fun vset :: "Vec3i \<Rightarrow> nat \<Rightarrow> int \<Rightarrow> Vec3i" where
  "vset (x, y, z) axis v =
     (if axis = 0 then (v, y, z) else if axis = 1 then (x, v, z) else (x, y, v))"

text \<open>\<^verbatim>\<open>++v[axis]\<close> and \<^verbatim>\<open>--v[axis]\<close>.\<close>

definition vinc :: "Vec3i \<Rightarrow> nat \<Rightarrow> Vec3i" where
  "vinc v axis = vset v axis (vget v axis + 1)"

definition vdec :: "Vec3i \<Rightarrow> nat \<Rightarrow> Vec3i" where
  "vdec v axis = vset v axis (vget v axis - 1)"

text \<open>A coordinate lies in a grid of extent \<open>s\<close> when each component is in \<open>[0, s)\<close>.\<close>

fun inRange :: "Vec3i \<Rightarrow> Vec3i \<Rightarrow> bool" where
  "inRange (sx, sy, sz) (x, y, z) = (0 \<le> x \<and> x < sx \<and> 0 \<le> y \<and> y < sy \<and> 0 \<le> z \<and> z < sz)"

text \<open>
  Modelled from the spec: \<^verbatim>\<open>forEachVoxelRange(Vec3i(0), size, f)\<close> is not part of the
  source file. The spec says that the faces of one axis are visited "in a fixed raster
  order"; the list below is that order, the first component outermost.
\<close>

fun voxels :: "Vec3i \<Rightarrow> Vec3i list" where
  "voxels (sx, sy, sz) =
     concat (map (\<lambda>i. concat (map (\<lambda>j. map (\<lambda>k. (i, j, k)) [0..sz - 1]) [0..sy - 1])) [0..sx - 1])"

subsection \<open>Grid-geometry helpers\<close>

text \<open>
  Modelled from the spec: \<^verbatim>\<open>faceToCell\<close>, \<^verbatim>\<open>cellToFace\<close>, \<^verbatim>\<open>faceToEdge\<close> and
  \<^verbatim>\<open>edgeToFace\<close> are declared outside the source file. The spec describes them as
  pure, index-only lookups "mapping a face to its two adjacent cells, a cell to its faces
  along an axis, a face to an incident edge, and an edge to an incident face", on a
  staggered grid whose face grid of an axis has one more entry along that axis than the
  cell grid. Face \<open>f\<close> of axis \<open>a\<close> lies between cell \<open>f - e\<^sub>a\<close> (direction 0) and cell
  \<open>f\<close> (direction 1); an edge of axis \<open>e\<close> carries the index of the lowest cell it
  bounds, so a face meets its edges of axis \<open>e\<close> at its own index (direction 0) and one
  step along the third axis \<open>3 - a - e\<close> (direction 1).
\<close>

definition faceToCell :: "Vec3i \<Rightarrow> nat \<Rightarrow> nat \<Rightarrow> Vec3i" where
  "faceToCell face axis direction = (if direction = 0 then vdec face axis else face)"

definition cellToFace :: "Vec3i \<Rightarrow> nat \<Rightarrow> nat \<Rightarrow> Vec3i" where
  "cellToFace cell axis direction = (if direction = 1 then vinc cell axis else cell)"

definition faceToEdge :: "Vec3i \<Rightarrow> nat \<Rightarrow> nat \<Rightarrow> nat \<Rightarrow> Vec3i" where
  "faceToEdge face faceAxis edgeAxis direction =
     (if direction = 1 then vinc face (3 - faceAxis - edgeAxis) else face)"

definition edgeToFace :: "Vec3i \<Rightarrow> nat \<Rightarrow> nat \<Rightarrow> nat \<Rightarrow> Vec3i" where
  "edgeToFace edge edgeAxis faceAxis direction =
     (if direction = 0 then vdec edge (3 - faceAxis - edgeAxis) else edge)"

section \<open>Arguments, collaborators and results of the solver\<close>

text \<open>
  The arguments of \<^verbatim>\<open>ViscositySolver\<close> and what its collaborators return. The grids
  of the source share one layout (the assertions of lines 19 to 29): here they are
  functions of the coordinate over one cell extent \<open>gridSize\<close>, so a mismatch cannot be
  written. The supersampled volumes (\<^verbatim>\<open>computeSupersampleVolumes\<close>,
  \<^verbatim>\<open>computeSupersampledFaceVolumes\<close>) and the two interpolations
  (\<^verbatim>\<open>solidSurface.interp\<close> at a face, \<^verbatim>\<open>viscosity.interp\<close> at an edge) are computed
  outside the source file; the record holds their values.
\<close>

record inputs =
  dt :: real
  dx :: real
  gridSize :: Vec3i
  velocity :: "nat \<Rightarrow> Vec3i \<Rightarrow> real"
  solidVelocity :: "nat \<Rightarrow> Vec3i \<Rightarrow> real"
  viscosity :: "Vec3i \<Rightarrow> real"
  centerVolumes :: "Vec3i \<Rightarrow> real"
  edgeVolumes :: "nat \<Rightarrow> Vec3i \<Rightarrow> real"
  faceVolumes :: "nat \<Rightarrow> Vec3i \<Rightarrow> real"
  solidSurfaceAtFace :: "nat \<Rightarrow> Vec3i \<Rightarrow> real"
  viscosityAtEdge :: "nat \<Rightarrow> Vec3i \<Rightarrow> real"

datatype MaterialLabels = SOLID_FACE | LIQUID_FACE | AIR_FACE

text \<open>\<^verbatim>\<open>velocity.size(axis)\<close>: the cell extent with one more entry along the axis.\<close>

definition faceGridSize :: "inputs \<Rightarrow> nat \<Rightarrow> Vec3i" where
  "faceGridSize I axis = vinc (gridSize I) axis"

section \<open>Face classifier (lines 54 to 98)\<close>

text \<open>The two flag loops of lines 66 to 87, each a fold over the values of its loop variable.\<close>

definition cellFlag :: "inputs \<Rightarrow> nat \<Rightarrow> Vec3i \<Rightarrow> bool \<Rightarrow> bool" where
  "cellFlag I faceAxis face flag0 =
     fold (\<lambda>direction isFaceInSolve.
             if centerVolumes I (faceToCell face faceAxis direction) > 0 then True
             else isFaceInSolve)
          [0, 1] flag0"

definition edgeFlag :: "inputs \<Rightarrow> nat \<Rightarrow> Vec3i \<Rightarrow> bool \<Rightarrow> bool" where
  "edgeFlag I faceAxis face flag0 =
     fold (\<lambda>edgeAxis isFaceInSolve.
             if edgeAxis = faceAxis then isFaceInSolve
             else fold (\<lambda>direction isFaceInSolve.
                          if edgeVolumes I edgeAxis (faceToEdge face faceAxis edgeAxis direction) > 0
                          then True else isFaceInSolve)
                       [0, 1] isFaceInSolve)
          [0, 1, 2] flag0"

definition isFaceInSolve :: "inputs \<Rightarrow> nat \<Rightarrow> Vec3i \<Rightarrow> bool" where
  "isFaceInSolve I faceAxis face =
     (let flag = cellFlag I faceAxis face False
      in if \<not> flag then edgeFlag I faceAxis face flag else flag)"

text \<open>
  The body of the loop for one face: the label it leaves in \<^verbatim>\<open>materialFaceLabels\<close>,
  which was filled with \<^verbatim>\<open>AIR_FACE\<close>.
\<close>

definition classifyFace :: "inputs \<Rightarrow> nat \<Rightarrow> Vec3i \<Rightarrow> MaterialLabels" where
  "classifyFace I faceAxis face =
     (if vget face faceAxis = 0 \<or> vget face faceAxis = vget (faceGridSize I faceAxis) faceAxis - 1
      then AIR_FACE
      else if isFaceInSolve I faceAxis face
      then (if solidSurfaceAtFace I faceAxis face \<le> 0 then SOLID_FACE else LIQUID_FACE)
      else AIR_FACE)"

text \<open>
  The label grid after the three parallel loops, as a function of the axis and the
  coordinate. Every face of the grid is visited once and writes its own entry only. The
  function is total: at an axis other than 0, 1, 2 or a coordinate outside the grid,
  where the source has no entry, it has the fill value. The same holds for the index
  grid below. The loops of the model consult the two grids at the face they visit, which
  lies in the grid, and at its neighbours, where the coordinate is checked first (see
  \<open>couple\<close>): the values outside the grid are never the answer to a read of the source.
\<close>

definition materialFaceLabels :: "inputs \<Rightarrow> nat \<Rightarrow> Vec3i \<Rightarrow> MaterialLabels" where
  "materialFaceLabels I faceAxis face =
     (if faceAxis < 3 \<and> inRange (faceGridSize I faceAxis) face then classifyFace I faceAxis face
      else AIR_FACE)"

section \<open>Degree-of-freedom numbering (lines 100 to 113)\<close>

definition UNLABELLED_CELL :: int where
  "UNLABELLED_CELL = - 1"

type_synonym dof_state = "int \<times> (nat \<times> Vec3i \<Rightarrow> int)"

definition dofStep :: "inputs \<Rightarrow> nat \<Rightarrow> Vec3i \<Rightarrow> dof_state \<Rightarrow> dof_state" where
  "dofStep I axis face st =
     (case st of (liquidDOFCount, indices) \<Rightarrow>
        if materialFaceLabels I axis face = LIQUID_FACE
        then (liquidDOFCount + 1, indices((axis, face) := liquidDOFCount))
        else (liquidDOFCount, indices))"

definition dofPass :: "inputs \<Rightarrow> dof_state" where
  "dofPass I =
     fold (\<lambda>axis st. fold (dofStep I axis) (voxels (faceGridSize I axis)) st)
          [0, 1, 2] (0, \<lambda>_. UNLABELLED_CELL)"

definition liquidDOFCount :: "inputs \<Rightarrow> int" where
  "liquidDOFCount I = fst (dofPass I)"

definition liquidFaceIndices :: "inputs \<Rightarrow> nat \<Rightarrow> Vec3i \<Rightarrow> int" where
  "liquidFaceIndices I axis face = snd (dofPass I) (axis, face)"

section \<open>Prescaled control volumes (lines 115 to 144)\<close>

definition discreteScalar :: "inputs \<Rightarrow> real" where
  "discreteScalar I = dt I / (dx I * dx I)"

text \<open>
  Each loop visits every entry of its grid and rescales the positive ones in place; the
  functions below are the grids after the loops.
\<close>

definition scaledCenterVolumes :: "inputs \<Rightarrow> Vec3i \<Rightarrow> real" where
  "scaledCenterVolumes I cell =
     (if centerVolumes I cell > 0
      then centerVolumes I cell * (2 * discreteScalar I * viscosity I cell)
      else centerVolumes I cell)"

definition scaledEdgeVolumes :: "inputs \<Rightarrow> nat \<Rightarrow> Vec3i \<Rightarrow> real" where
  "scaledEdgeVolumes I edgeAxis edge =
     (if edgeVolumes I edgeAxis edge > 0
      then edgeVolumes I edgeAxis edge * (discreteScalar I * viscosityAtEdge I edgeAxis edge)
      else edgeVolumes I edgeAxis edge)"

section \<open>System assembler (lines 146 to 285)\<close>

type_synonym Triplet = "int \<times> int \<times> real"

record linear_system =
  sparseElements :: "Triplet list"
  initialGuessVector :: "real list"
  rhsVector :: "real list"

text \<open>
  The assembly asks the index grid and the label grid for the faces next to the face at
  hand (lines 201, 210, 246 and 259). These are plain container accesses: the source file
  has no check of the coordinate, and neither the source file nor the spec says what an
  access outside the grid returns. The model gives such an access no value: the assembly
  stops there with a fault that names the axis and the coordinate asked for.
\<close>

datatype fault = ReadOutsideGrid nat Vec3i

definition inFaceGrid :: "inputs \<Rightarrow> nat \<Rightarrow> Vec3i \<Rightarrow> bool" where
  "inFaceGrid I faceAxis face = (faceAxis < 3 \<and> inRange (faceGridSize I faceAxis) face)"

text \<open>
  A loop whose body can stop at a fault: the body runs on each value in turn, and the
  first fault ends the loop.
\<close>

fun foldE :: "('a \<Rightarrow> 's \<Rightarrow> fault + 's) \<Rightarrow> 'a list \<Rightarrow> 's \<Rightarrow> fault + 's" where
  "foldE body [] s = Inr s"
| "foldE body (x # xs) s = (case body x s of Inl f \<Rightarrow> Inl f | Inr s' \<Rightarrow> foldE body xs s')"

text \<open>
  The three-way dispatch on the neighbouring face, written twice in the source (lines 201
  to 216 and 246 to 266): a neighbour with a degree of freedom goes to the matrix, a solid
  one to the right-hand side, any other contributes nothing. The state is the local
  \<^verbatim>\<open>diagonal\<close> and the system under construction. The dispatch begins with
  the read of the neighbour's index, so a neighbour outside the face grid of its axis is
  a fault.
\<close>

definition couple ::
  "inputs \<Rightarrow> int \<Rightarrow> real \<Rightarrow> nat \<Rightarrow> Vec3i \<Rightarrow> real \<times> linear_system
     \<Rightarrow> fault + (real \<times> linear_system)" where
  "couple I liquidFaceIndex coefficient adjacentAxis adjacentFace st =
     (case st of (diagonal, S) \<Rightarrow>
        if \<not> inFaceGrid I adjacentAxis adjacentFace
        then Inl (ReadOutsideGrid adjacentAxis adjacentFace)
        else
          let adjacentFaceIndex = liquidFaceIndices I adjacentAxis adjacentFace in
          if adjacentFaceIndex \<ge> 0 then
            (if adjacentFaceIndex = liquidFaceIndex then Inr (diagonal - coefficient, S)
             else Inr (diagonal,
                   S\<lparr>sparseElements :=
                       sparseElements S @ [(liquidFaceIndex, adjacentFaceIndex, - coefficient)]\<rparr>))
          else if materialFaceLabels I adjacentAxis adjacentFace = SOLID_FACE then
            Inr (diagonal,
                 S\<lparr>rhsVector :=
                     (rhsVector S)[nat liquidFaceIndex :=
                        rhsVector S ! nat liquidFaceIndex
                        + coefficient * solidVelocity I adjacentAxis adjacentFace]\<rparr>)
          else Inr (diagonal, S))"

definition directionSign :: "nat \<Rightarrow> real" where
  "directionSign direction = (if direction = 0 then - 1 else 1)"

text \<open>Cell-centred stress terms, lines 183 to 219.\<close>

definition normalStress ::
  "inputs \<Rightarrow> nat \<Rightarrow> Vec3i \<Rightarrow> int \<Rightarrow> real \<times> linear_system
     \<Rightarrow> fault + (real \<times> linear_system)" where
  "normalStress I faceAxis face liquidFaceIndex st0 =
     foldE (\<lambda>divergenceDirection st.
        let cell = faceToCell face faceAxis divergenceDirection;
            divergenceSign = directionSign divergenceDirection
        in if scaledCenterVolumes I cell > 0 then
             foldE (\<lambda>gradientDirection st.
                let adjacentFace = cellToFace cell faceAxis gradientDirection;
                    gradientSign = directionSign gradientDirection;
                    coefficient = divergenceSign * gradientSign * scaledCenterVolumes I cell
                in couple I liquidFaceIndex coefficient faceAxis adjacentFace st)
              [0, 1] st
           else Inr st)
      [0, 1] st0"

text \<open>
  Edge-centred stress terms, lines 221 to 271. Around an edge incident to the face the
  loop visits the two faces of the other axis and the two faces of the face's own axis
  (\<open>gradientFaceAxis = faceAxis\<close>), which are the face itself and the next face of that
  axis across the edge. For a face in the first or the last layer of the grid along the
  third axis the edge lies on the rim of the grid, and the face across it is one step
  outside the face grid: when the volume at that edge is positive, the dispatch is
  reached with this coordinate and the loop stops at the fault.
\<close>

definition shearStress ::
  "inputs \<Rightarrow> nat \<Rightarrow> Vec3i \<Rightarrow> int \<Rightarrow> real \<times> linear_system
     \<Rightarrow> fault + (real \<times> linear_system)" where
  "shearStress I faceAxis face liquidFaceIndex st0 =
     foldE (\<lambda>edgeAxis st.
        if edgeAxis = faceAxis then Inr st
        else
          foldE (\<lambda>divergenceDirection st.
             let edge = faceToEdge face faceAxis edgeAxis divergenceDirection
             in if scaledEdgeVolumes I edgeAxis edge > 0 then
                  let divergenceSign = directionSign divergenceDirection
                  in foldE (\<lambda>gradientAxis st.
                       if gradientAxis = edgeAxis then Inr st
                       else
                         let gradientFaceAxis = 3 - gradientAxis - edgeAxis
                         in foldE (\<lambda>gradientDirection st.
                              let gradientSign = directionSign gradientDirection;
                                  localGradientFace =
                                    edgeToFace edge edgeAxis gradientFaceAxis gradientDirection;
                                  coefficient =
                                    divergenceSign * gradientSign * scaledEdgeVolumes I edgeAxis edge
                              in couple I liquidFaceIndex coefficient gradientFaceAxis
                                   localGradientFace st)
                            [0, 1] st)
                     [0, 1, 2] st
                else Inr st)
           [0, 1] st)
      [0, 1, 2] st0"

text \<open>The body of the assembly loop for one face, lines 162 to 276.\<close>

definition assembleFace :: "inputs \<Rightarrow> nat \<Rightarrow> Vec3i \<Rightarrow> linear_system \<Rightarrow> fault + linear_system" where
  "assembleFace I faceAxis face S =
     (let liquidFaceIndex = liquidFaceIndices I faceAxis face in
      if liquidFaceIndex \<ge> 0 then
        let S1 = S\<lparr>initialGuessVector :=
                     (initialGuessVector S)[nat liquidFaceIndex := velocity I faceAxis face]\<rparr>;
            localFaceVolume = faceVolumes I faceAxis face;
            S2 = S1\<lparr>rhsVector :=
                      (rhsVector S1)[nat liquidFaceIndex :=
                         localFaceVolume * velocity I faceAxis face]\<rparr>;
            diagonal = localFaceVolume
        in case normalStress I faceAxis face liquidFaceIndex (diagonal, S2) of
             Inl f \<Rightarrow> Inl f
           | Inr st3 \<Rightarrow>
               (case shearStress I faceAxis face liquidFaceIndex st3 of
                  Inl f \<Rightarrow> Inl f
                | Inr st4 \<Rightarrow>
                    Inr ((snd st4)\<lparr>sparseElements :=
                           sparseElements (snd st4)
                           @ [(liquidFaceIndex, liquidFaceIndex, fst st4)]\<rparr>))
      else Inr S)"

text \<open>
  The assembly over all faces. The source runs the faces of one axis in parallel and
  concatenates the threads' triplet lists in no fixed order; the model visits the faces
  in raster order. Each face writes the vector entries of its own index only. The
  assembly returns the system when no face asks for a coordinate outside the grid, and
  the first fault in raster order otherwise.
\<close>

definition emptySystem :: "inputs \<Rightarrow> linear_system" where
  "emptySystem I =
     \<lparr>sparseElements = [],
      initialGuessVector = replicate (nat (liquidDOFCount I)) 0,
      rhsVector = replicate (nat (liquidDOFCount I)) 0\<rparr>"

definition assemble :: "inputs \<Rightarrow> fault + linear_system" where
  "assemble I =
     foldE (\<lambda>faceAxis S. foldE (assembleFace I faceAxis) (voxels (faceGridSize I faceAxis)) S)
           [0, 1, 2] (emptySystem I)"

section \<open>Linear solver and scatter (lines 284 to 326)\<close>

text \<open>
  \<^verbatim>\<open>Eigen::ConjugateGradient\<close> is a library outside the repository. The model takes
  it as a parameter: what \<^verbatim>\<open>info()\<close> reports after \<^verbatim>\<open>compute\<close>, and what
  \<^verbatim>\<open>solveWithGuess\<close> returns together with \<^verbatim>\<open>info()\<close>, \<^verbatim>\<open>iterations()\<close> and
  \<^verbatim>\<open>error()\<close> afterwards, as functions of the matrix dimension, the triplets, the
  right-hand side and the guess.
\<close>

datatype ComputationInfo = Success | NumericalIssue | NoConvergence | InvalidInput

record solve_result =
  solutionVector :: "real list"
  solveInfo :: ComputationInfo
  solveIterations :: int
  solveError :: real

record ConjugateGradient =
  computeInfo :: "int \<Rightarrow> Triplet list \<Rightarrow> ComputationInfo"
  solveWithGuess :: "int \<Rightarrow> Triplet list \<Rightarrow> real list \<Rightarrow> real list \<Rightarrow> solve_result"

text \<open>What the call prints on \<^verbatim>\<open>std::cout\<close>.\<close>

datatype diagnostic =
  SolverFailedToBuild
  | SolverFailedToConverge
  | SolverIterations int
  | SolverError real

record outcome =
  velocityAfter :: "nat \<Rightarrow> Vec3i \<Rightarrow> real"
  printed :: "diagnostic list"

text \<open>
  The scatter loops of lines 310 to 326: every face of the grid with a degree of freedom
  receives its entry of the solution.
\<close>

definition scatter :: "inputs \<Rightarrow> real list \<Rightarrow> nat \<Rightarrow> Vec3i \<Rightarrow> real" where
  "scatter I solution faceAxis face =
     (if faceAxis < 3 \<and> inRange (faceGridSize I faceAxis) face
         \<and> liquidFaceIndices I faceAxis face \<ge> 0
      then solution ! nat (liquidFaceIndices I faceAxis face)
      else velocity I faceAxis face)"

text \<open>
  The call as a whole. A fault of the assembly ends the call before the solver is
  built; otherwise the call returns the velocity field and what it printed.
\<close>

definition ViscositySolver :: "ConjugateGradient \<Rightarrow> inputs \<Rightarrow> fault + outcome" where
  "ViscositySolver solver I =
     (case assemble I of
        Inl f \<Rightarrow> Inl f
      | Inr S \<Rightarrow>
          let n = liquidDOFCount I
          in if computeInfo solver n (sparseElements S) \<noteq> Success then
               Inr \<lparr>velocityAfter = velocity I, printed = [SolverFailedToBuild]\<rparr>
             else
               let r = solveWithGuess solver n (sparseElements S) (rhsVector S)
                         (initialGuessVector S)
               in if solveInfo r \<noteq> Success then
                    Inr \<lparr>velocityAfter = velocity I, printed = [SolverFailedToConverge]\<rparr>
                  else
                    Inr \<lparr>velocityAfter = scatter I (solutionVector r),
                         printed = [SolverIterations (solveIterations r),
                                    SolverError (solveError r)]\<rparr>)"

section \<open>Derived notions used in the statements\<close>

text \<open>
  The faces of the staggered grid in the order of the numbering pass: axis 0, 1, 2, and
  the raster order within an axis. A face is identified by its axis and its coordinate.
\<close>

definition allFaces :: "inputs \<Rightarrow> (nat \<times> Vec3i) list" where
  "allFaces I = concat (map (\<lambda>axis. map (Pair axis) (voxels (faceGridSize I axis))) [0, 1, 2])"

definition isLiquid :: "inputs \<Rightarrow> nat \<times> Vec3i \<Rightarrow> bool" where
  "isLiquid I k = (materialFaceLabels I (fst k) (snd k) = LIQUID_FACE)"

definition liquidFaces :: "inputs \<Rightarrow> (nat \<times> Vec3i) list" where
  "liquidFaces I = filter (isLiquid I) (allFaces I)"

fun indexOf :: "'a list \<Rightarrow> 'a \<Rightarrow> nat" where
  "indexOf [] k = 0"
| "indexOf (x # xs) k = (if x = k then 0 else Suc (indexOf xs k))"

abbreviation faceIndex :: "inputs \<Rightarrow> nat \<times> Vec3i \<Rightarrow> int" where
  "faceIndex I k \<equiv> liquidFaceIndices I (fst k) (snd k)"

abbreviation faceVelocity :: "inputs \<Rightarrow> nat \<times> Vec3i \<Rightarrow> real" where
  "faceVelocity I k \<equiv> velocity I (fst k) (snd k)"

subsection \<open>The stencil of a face\<close>

text \<open>
  The neighbours that the loops of \<open>normalStress\<close> and \<open>shearStress\<close> hand to
  \<open>couple\<close>, in the order of the loops: the coefficient, the neighbour's axis and its
  coordinate.
\<close>

type_synonym stencil_entry = "real \<times> nat \<times> Vec3i"

definition normalStencil :: "inputs \<Rightarrow> nat \<Rightarrow> Vec3i \<Rightarrow> stencil_entry list" where
  "normalStencil I faceAxis face =
     concat (map (\<lambda>divergenceDirection.
        let cell = faceToCell face faceAxis divergenceDirection
        in if scaledCenterVolumes I cell > 0
           then map (\<lambda>gradientDirection.
                  (directionSign divergenceDirection * directionSign gradientDirection
                     * scaledCenterVolumes I cell,
                   faceAxis, cellToFace cell faceAxis gradientDirection)) [0, 1]
           else []) [0, 1])"

definition shearStencil :: "inputs \<Rightarrow> nat \<Rightarrow> Vec3i \<Rightarrow> stencil_entry list" where
  "shearStencil I faceAxis face =
     concat (map (\<lambda>edgeAxis.
        if edgeAxis = faceAxis then []
        else concat (map (\<lambda>divergenceDirection.
          let edge = faceToEdge face faceAxis edgeAxis divergenceDirection
          in if scaledEdgeVolumes I edgeAxis edge > 0
             then concat (map (\<lambda>gradientAxis.
                    if gradientAxis = edgeAxis then []
                    else map (\<lambda>gradientDirection.
                           (directionSign divergenceDirection * directionSign gradientDirection
                              * scaledEdgeVolumes I edgeAxis edge,
                            3 - gradientAxis - edgeAxis,
                            edgeToFace edge edgeAxis (3 - gradientAxis - edgeAxis) gradientDirection))
                         [0, 1]) [0, 1, 2])
             else []) [0, 1])) [0, 1, 2])"

definition stencil :: "inputs \<Rightarrow> nat \<Rightarrow> Vec3i \<Rightarrow> stencil_entry list" where
  "stencil I faceAxis face = normalStencil I faceAxis face @ shearStencil I faceAxis face"

definition coupleEntry ::
  "inputs \<Rightarrow> int \<Rightarrow> stencil_entry \<Rightarrow> real \<times> linear_system
     \<Rightarrow> fault + (real \<times> linear_system)" where
  "coupleEntry I i e = couple I i (fst e) (fst (snd e)) (snd (snd e))"

text \<open>What a list of stencil entries adds to the diagonal, the matrix and the right-hand side.\<close>

definition diagonalPart :: "inputs \<Rightarrow> int \<Rightarrow> stencil_entry list \<Rightarrow> real" where
  "diagonalPart I i es =
     sum_list (map (\<lambda>e. if liquidFaceIndices I (fst (snd e)) (snd (snd e)) = i then fst e else 0) es)"

definition offDiagonal :: "inputs \<Rightarrow> int \<Rightarrow> stencil_entry list \<Rightarrow> Triplet list" where
  "offDiagonal I i es =
     map (\<lambda>e. (i, liquidFaceIndices I (fst (snd e)) (snd (snd e)), - fst e))
       (filter (\<lambda>e. liquidFaceIndices I (fst (snd e)) (snd (snd e)) \<ge> 0
                  \<and> liquidFaceIndices I (fst (snd e)) (snd (snd e)) \<noteq> i) es)"

definition solidPart :: "inputs \<Rightarrow> stencil_entry list \<Rightarrow> real" where
  "solidPart I es =
     sum_list (map (\<lambda>e. if materialFaceLabels I (fst (snd e)) (snd (snd e)) = SOLID_FACE
                          \<and> \<not> liquidFaceIndices I (fst (snd e)) (snd (snd e)) \<ge> 0
                       then fst e * solidVelocity I (fst (snd e)) (snd (snd e)) else 0) es)"

definition rowRhs :: "inputs \<Rightarrow> nat \<times> Vec3i \<Rightarrow> real" where
  "rowRhs I k =
     faceVolumes I (fst k) (snd k) * velocity I (fst k) (snd k)
     + solidPart I (stencil I (fst k) (snd k))"

definition rowDiagonal :: "inputs \<Rightarrow> nat \<times> Vec3i \<Rightarrow> real" where
  "rowDiagonal I k =
     faceVolumes I (fst k) (snd k) - diagonalPart I (faceIndex I k) (stencil I (fst k) (snd k))"

definition rowTriplets :: "inputs \<Rightarrow> nat \<times> Vec3i \<Rightarrow> Triplet list" where
  "rowTriplets I k =
     offDiagonal I (faceIndex I k) (stencil I (fst k) (snd k))
     @ [(faceIndex I k, faceIndex I k, rowDiagonal I k)]"

text \<open>
  The system row by row, one row for each LIQUID face in the order of the numbering; and
  the condition under which the assembly returns it: every neighbour in the stencil of
  a LIQUID face lies in the face grid of its axis.
\<close>

definition systemByRows :: "inputs \<Rightarrow> linear_system" where
  "systemByRows I =
     \<lparr>sparseElements = concat (map (rowTriplets I) (liquidFaces I)),
      initialGuessVector = map (faceVelocity I) (liquidFaces I),
      rhsVector = map (rowRhs I) (liquidFaces I)\<rparr>"

definition entryInGrid :: "inputs \<Rightarrow> stencil_entry \<Rightarrow> bool" where
  "entryInGrid I e = inFaceGrid I (fst (snd e)) (snd (snd e))"

definition stencilInGrid :: "inputs \<Rightarrow> nat \<times> Vec3i \<Rightarrow> bool" where
  "stencilInGrid I k = list_all (entryInGrid I) (stencil I (fst k) (snd k))"

definition readsInGrid :: "inputs \<Rightarrow> bool" where
  "readsInGrid I = list_all (stencilInGrid I) (liquidFaces I)"

text \<open>
  The same condition on the input: for each edge axis orthogonal to the face's axis, a
  face in the first layer of the grid along the third axis has no positive volume at the
  edge at its own coordinate, and a face in the last layer has none at the next edge.
\<close>

definition rimEdgesClear :: "inputs \<Rightarrow> nat \<times> Vec3i \<Rightarrow> bool" where
  "rimEdgesClear I k =
     list_all (\<lambda>edgeAxis.
        edgeAxis = fst k
        \<or> (let other = 3 - fst k - edgeAxis
            in (vget (snd k) other = 0 \<longrightarrow> \<not> scaledEdgeVolumes I edgeAxis (snd k) > 0)
             \<and> (vget (snd k) other = vget (gridSize I) other - 1 \<longrightarrow>
                  \<not> scaledEdgeVolumes I edgeAxis (vinc (snd k) other) > 0)))
       [0, 1, 2]"

subsection \<open>The solver's calls\<close>

text \<open>What the solver reports and returns for the assembled system \<open>S\<close>.\<close>

definition builtInfo :: "ConjugateGradient \<Rightarrow> inputs \<Rightarrow> linear_system \<Rightarrow> ComputationInfo" where
  "builtInfo solver I S = computeInfo solver (liquidDOFCount I) (sparseElements S)"

definition solved :: "ConjugateGradient \<Rightarrow> inputs \<Rightarrow> linear_system \<Rightarrow> solve_result" where
  "solved solver I S =
     solveWithGuess solver (liquidDOFCount I) (sparseElements S)
       (rhsVector S) (initialGuessVector S)"

subsection \<open>A small grid and three solvers\<close>

text \<open>
  A grid of 2 by 2 by 1 cells, liquid in every cell, with one edge of axis 2 inside the
  liquid and one solid face: the faces \<open>(0, (1,0,0))\<close>, \<open>(0, (1,1,0))\<close> and
  \<open>(1, (0,1,0))\<close> are liquid, the face \<open>(1, (1,1,0))\<close> is solid.
\<close>

definition exampleInputs :: inputs where
  "exampleInputs =
     \<lparr>dt = 1, dx = 1, gridSize = (2, 2, 1),
      velocity = (\<lambda>axis face. if axis = 0 then 3 else 5),
      solidVelocity = (\<lambda>axis face. 7),
      viscosity = (\<lambda>cell. 1),
      centerVolumes = (\<lambda>cell. 1),
      edgeVolumes = (\<lambda>axis edge. if axis = 2 \<and> edge = (1, 1, 0) then 1 else 0),
      faceVolumes = (\<lambda>axis face. 1),
      solidSurfaceAtFace = (\<lambda>axis face. if axis = 1 \<and> face = (1, 1, 0) then - 1 else 1),
      viscosityAtEdge = (\<lambda>axis edge. 1)\<rparr>"

text \<open>The system of three equations that the assembly returns on this grid.\<close>

definition exampleSystem :: linear_system where
  "exampleSystem =
     \<lparr>sparseElements =
        [(0, 2, 1), (0, 1, - 1), (0, 0, 6), (1, 2, - 1), (1, 0, - 1), (1, 1, 6),
         (2, 0, 1), (2, 1, - 1), (2, 2, 6)],
      initialGuessVector = [3, 3, 5], rhsVector = [10, - 4, 12]\<rparr>"

text \<open>
  A tank of 2 by 2 by 2 cells full of liquid, with positive volume at every cell, edge
  and face: its liquid faces lie next to the rim of the grid.
\<close>

definition tankInputs :: inputs where
  "tankInputs =
     \<lparr>dt = 1, dx = 1, gridSize = (2, 2, 2),
      velocity = (\<lambda>axis face. 1),
      solidVelocity = (\<lambda>axis face. 0),
      viscosity = (\<lambda>cell. 1),
      centerVolumes = (\<lambda>cell. 1),
      edgeVolumes = (\<lambda>axis edge. 1),
      faceVolumes = (\<lambda>axis face. 1),
      solidSurfaceAtFace = (\<lambda>axis face. 1),
      viscosityAtEdge = (\<lambda>axis edge. 1)\<rparr>"

definition buildFailingSolver :: ConjugateGradient where
  "buildFailingSolver =
     \<lparr>computeInfo = (\<lambda>n T. NumericalIssue),
      solveWithGuess = (\<lambda>n T b x0.
        \<lparr>solutionVector = x0, solveInfo = Success, solveIterations = 0, solveError = 0\<rparr>)\<rparr>"

definition stallingSolver :: ConjugateGradient where
  "stallingSolver =
     \<lparr>computeInfo = (\<lambda>n T. Success),
      solveWithGuess = (\<lambda>n T b x0.
        \<lparr>solutionVector = map (\<lambda>x. x + 1) x0, solveInfo = NoConvergence,
         solveIterations = 2 * n, solveError = 1\<rparr>)\<rparr>"

definition constantSolver :: ConjugateGradient where
  "constantSolver =
     \<lparr>computeInfo = (\<lambda>n T. Success),
      solveWithGuess = (\<lambda>n T b x0.
        \<lparr>solutionVector = map (\<lambda>x. 2 * x) b, solveInfo = Success,
         solveIterations = 1, solveError = 0\<rparr>)\<rparr>"

subsection \<open>The spec's wording of the classifier and of the numbering order\<close>

text \<open>
  The two cells adjacent to a face, and the four edges incident to it: two edge axes
  orthogonal to the face's axis, two directions each.
\<close>

definition adjacentCells :: "nat \<Rightarrow> Vec3i \<Rightarrow> Vec3i list" where
  "adjacentCells faceAxis face = map (faceToCell face faceAxis) [0, 1]"

definition incidentEdges :: "nat \<Rightarrow> Vec3i \<Rightarrow> (nat \<times> Vec3i) list" where
  "incidentEdges faceAxis face =
     concat (map (\<lambda>edgeAxis. map (\<lambda>direction. (edgeAxis, faceToEdge face faceAxis edgeAxis direction)) [0, 1])
                 (filter (\<lambda>edgeAxis. edgeAxis \<noteq> faceAxis) [0, 1, 2]))"

text \<open>
  "A face is in the solve if either adjacent cell has positive center volume, or if any of
  the four edges incident to the face has positive edge volume."
\<close>

definition inSolveSpec :: "inputs \<Rightarrow> nat \<Rightarrow> Vec3i \<Rightarrow> bool" where
  "inSolveSpec I faceAxis face =
     ((\<exists>cell \<in> set (adjacentCells faceAxis face). centerVolumes I cell > 0)
      \<or> (\<exists>e \<in> set (incidentEdges faceAxis face). edgeVolumes I (fst e) (snd e) > 0))"

text \<open>"Axis-then-coordinate order": the axis first, then the coordinate, first component first.\<close>

fun rasterBefore :: "nat \<times> Vec3i \<Rightarrow> nat \<times> Vec3i \<Rightarrow> bool" where
  "rasterBefore (a, (x, y, z)) (a', (x', y', z')) =
     (a < a' \<or> (a = a' \<and> (x < x' \<or> (x = x' \<and> (y < y' \<or> (y = y' \<and> z < z'))))))"

subsection \<open>The neighbours of a face by label\<close>

text \<open>
  The stencil entries of a face whose neighbour is SOLID, those whose neighbour is another
  LIQUID face, and those whose neighbour is the face itself.
\<close>

definition solidNeighbours :: "inputs \<Rightarrow> nat \<Rightarrow> Vec3i \<Rightarrow> stencil_entry list" where
  "solidNeighbours I axis face =
     filter (\<lambda>e. materialFaceLabels I (fst (snd e)) (snd (snd e)) = SOLID_FACE) (stencil I axis face)"

definition liquidNeighbours :: "inputs \<Rightarrow> nat \<Rightarrow> Vec3i \<Rightarrow> stencil_entry list" where
  "liquidNeighbours I axis face =
     filter (\<lambda>e. materialFaceLabels I (fst (snd e)) (snd (snd e)) = LIQUID_FACE
                \<and> snd e \<noteq> (axis, face)) (stencil I axis face)"

definition selfEntries :: "inputs \<Rightarrow> nat \<Rightarrow> Vec3i \<Rightarrow> stencil_entry list" where
  "selfEntries I axis face = filter (\<lambda>e. snd e = (axis, face)) (stencil I axis face)"

text \<open>
  \<^verbatim>\<open>setFromTriplets\<close> sums the values of the triplets that share a row and a column.
\<close>

definition matrixEntry :: "Triplet list \<Rightarrow> int \<Rightarrow> int \<Rightarrow> real" where
  "matrixEntry T i j = sum_list (map (\<lambda>t. snd (snd t)) (filter (\<lambda>t. fst t = i \<and> fst (snd t) = j) T))"

subsection \<open>The blocks of the shear stencil\<close>

text \<open>
  The part of \<open>shearStencil\<close> for one edge axis and one divergence direction, that is,
  for one edge incident to the face; and the neighbours a stencil can reach, whatever the
  volumes.
\<close>

definition edgeBlock :: "inputs \<Rightarrow> nat \<Rightarrow> Vec3i \<Rightarrow> nat \<Rightarrow> nat \<Rightarrow> stencil_entry list" where
  "edgeBlock I faceAxis face edgeAxis divergenceDirection =
     (let edge = faceToEdge face faceAxis edgeAxis divergenceDirection
      in if scaledEdgeVolumes I edgeAxis edge > 0
         then concat (map (\<lambda>gradientAxis.
                if gradientAxis = edgeAxis then []
                else map (\<lambda>gradientDirection.
                       (directionSign divergenceDirection * directionSign gradientDirection
                          * scaledEdgeVolumes I edgeAxis edge,
                        3 - gradientAxis - edgeAxis,
                        edgeToFace edge edgeAxis (3 - gradientAxis - edgeAxis) gradientDirection))
                     [0, 1]) [0, 1, 2])
         else [])"

definition normalKeys :: "nat \<Rightarrow> Vec3i \<Rightarrow> (nat \<times> Vec3i) list" where
  "normalKeys a f = [(a, vdec f a), (a, f), (a, vinc f a)]"

definition blockKeys :: "nat \<Rightarrow> Vec3i \<Rightarrow> nat \<Rightarrow> nat \<Rightarrow> (nat \<times> Vec3i) list" where
  "blockKeys a f ea dd =
     [(3 - a - ea, vdec (faceToEdge f a ea dd) a), (3 - a - ea, faceToEdge f a ea dd),
      (a, vdec (faceToEdge f a ea dd) (3 - a - ea)), (a, faceToEdge f a ea dd)]"

text \<open>The sum of the coefficients with which the stencil of face \<open>k\<close> refers to face \<open>k'\<close>.\<close>

definition coefficientTo :: "inputs \<Rightarrow> nat \<times> Vec3i \<Rightarrow> nat \<times> Vec3i \<Rightarrow> real" where
  "coefficientTo I k k' =
     sum_list (map fst (filter (\<lambda>e. snd e = k') (stencil I (fst k) (snd k))))"

section \<open>The grid enumeration and the numbering\<close>

lemma distinct_concat_map:
  "distinct xs \<Longrightarrow> (\<And>x. x \<in> set xs \<Longrightarrow> distinct (f x)) \<Longrightarrow>
   (\<And>x y. x \<in> set xs \<Longrightarrow> y \<in> set xs \<Longrightarrow> x \<noteq> y \<Longrightarrow> set (f x) \<inter> set (f y) = {}) \<Longrightarrow>
   distinct (concat (map f xs))"
  by (induction xs) auto

lemma set_voxels: "set (voxels s) = {c. inRange s c}"
proof -
  obtain sx sy sz where s: "s = (sx, sy, sz)" by (cases s)
  show ?thesis unfolding s by (auto simp: image_iff)
qed

lemma distinct_voxels: "distinct (voxels s)"
proof -
  obtain sx sy sz where s: "s = (sx, sy, sz)" by (cases s)
  show ?thesis unfolding s voxels.simps
    by (intro distinct_concat_map) (auto simp: distinct_map inj_on_def)
qed

lemma axis_cases: "(axis::nat) < 3 \<longleftrightarrow> axis = 0 \<or> axis = 1 \<or> axis = 2"
  by arith

lemma set_allFaces:
  "set (allFaces I) = {(axis, face). axis < 3 \<and> inRange (faceGridSize I axis) face}"
  by (auto simp: allFaces_def set_voxels axis_cases)

lemma distinct_allFaces: "distinct (allFaces I)"
  unfolding allFaces_def
  by (intro distinct_concat_map) (auto simp: distinct_map inj_on_def distinct_voxels)

lemma indexOf_less: "k \<in> set xs \<Longrightarrow> indexOf xs k < length xs"
  by (induction xs) auto

lemma nth_indexOf: "k \<in> set xs \<Longrightarrow> xs ! indexOf xs k = k"
  by (induction xs) auto

lemma indexOf_nth: "distinct xs \<Longrightarrow> i < length xs \<Longrightarrow> indexOf xs (xs ! i) = i"
proof (induction xs arbitrary: i)
  case Nil
  then show ?case by simp
next
  case (Cons x xs)
  then show ?case by (cases i) auto
qed

lemma fold_dofStep:
  "distinct ks \<Longrightarrow>
   fold (\<lambda>k. dofStep I (fst k) (snd k)) ks (c, g) =
     (c + int (length (filter (isLiquid I) ks)),
      \<lambda>k. if k \<in> set (filter (isLiquid I) ks) then c + int (indexOf (filter (isLiquid I) ks) k)
           else g k)"
proof (induction ks arbitrary: c g)
  case Nil
  then show ?case by simp
next
  case (Cons k ks)
  then show ?case
    by (auto simp: dofStep_def isLiquid_def fun_eq_iff)
qed

lemma dofPass_allFaces:
  "dofPass I = fold (\<lambda>k. dofStep I (fst k) (snd k)) (allFaces I) (0, \<lambda>_. UNLABELLED_CELL)"
  by (simp add: dofPass_def allFaces_def fold_map comp_def)

lemma dofPass_eq:
  "dofPass I =
     (int (length (liquidFaces I)),
      \<lambda>k. if k \<in> set (liquidFaces I) then int (indexOf (liquidFaces I) k) else UNLABELLED_CELL)"
  unfolding dofPass_allFaces liquidFaces_def
  by (simp add: fold_dofStep [OF distinct_allFaces] cong: if_cong)

lemma liquid_in_allFaces: "isLiquid I k \<Longrightarrow> k \<in> set (allFaces I)"
  by (cases k) (auto simp: isLiquid_def materialFaceLabels_def set_allFaces split: if_splits)

lemma set_liquidFaces: "set (liquidFaces I) = {k. isLiquid I k}"
  by (auto simp: liquidFaces_def liquid_in_allFaces)

section \<open>The loops of the assembly as folds over the stencil\<close>

lemma foldE_append:
  "foldE body (xs @ ys) s = (case foldE body xs s of Inl f \<Rightarrow> Inl f | Inr s' \<Rightarrow> foldE body ys s')"
  by (induction xs arbitrary: s) (auto split: sum.splits)

lemma foldE_single: "foldE body [x] s = body x s"
  by (cases "body x s") simp_all

lemma foldE_map: "foldE body (map h xs) s = foldE (\<lambda>x. body (h x)) xs s"
  by (induction xs arbitrary: s) (auto split: sum.splits)

lemma foldE_if:
  "foldE body (if c then xs else ys) s = (if c then foldE body xs s else foldE body ys s)"
  by simp

lemma foldE_concat_map:
  assumes "\<And>x s. x \<in> set xs \<Longrightarrow> g x s = foldE body (h x) s"
  shows "foldE g xs s = foldE body (concat (map h xs)) s"
  using assms
proof (induction xs arbitrary: s)
  case Nil
  then show ?case by simp
next
  case (Cons x xs)
  then show ?case by (simp add: foldE_append split: sum.splits)
qed

lemma normalStress_fold:
  "normalStress I a f i st = foldE (coupleEntry I i) (normalStencil I a f) st"
  unfolding normalStress_def normalStencil_def Let_def
  apply (rule foldE_concat_map)
  apply (simp only: foldE_if foldE.simps(1))
  apply (rule if_cong; (rule refl)?)
  apply (simp only: foldE_map coupleEntry_def fst_conv snd_conv)
  done

lemma shearStress_fold:
  "shearStress I a f i st = foldE (coupleEntry I i) (shearStencil I a f) st"
  unfolding shearStress_def shearStencil_def Let_def
  apply (rule foldE_concat_map)
  apply (simp only: foldE_if foldE.simps(1))
  apply (rule if_cong; (rule refl)?)
  apply (rule foldE_concat_map)
  apply (simp only: foldE_if foldE.simps(1))
  apply (rule if_cong; (rule refl)?)
  apply (rule foldE_concat_map)
  apply (simp only: foldE_if foldE.simps(1))
  apply (rule if_cong; (rule refl)?)
  apply (simp only: foldE_map coupleEntry_def fst_conv snd_conv)
  done

lemma coupleEntry_step:
  "entryInGrid I e \<Longrightarrow> 0 \<le> i \<Longrightarrow> nat i < length (rhsVector S) \<Longrightarrow>
   coupleEntry I i e (d, S) =
     Inr (d - diagonalPart I i [e],
          S\<lparr>sparseElements := sparseElements S @ offDiagonal I i [e],
            rhsVector := (rhsVector S)[nat i := rhsVector S ! nat i + solidPart I [e]]\<rparr>)"
  by (simp add: coupleEntry_def couple_def entryInGrid_def Let_def diagonalPart_def
      offDiagonal_def solidPart_def)

lemma coupleEntry_fault:
  "\<not> entryInGrid I e \<Longrightarrow>
   coupleEntry I i e st = Inl (ReadOutsideGrid (fst (snd e)) (snd (snd e)))"
  by (cases st) (simp add: coupleEntry_def couple_def entryInGrid_def)

lemma coupleEntry_returns:
  "entryInGrid I e \<Longrightarrow> \<exists>st'. coupleEntry I i e st = Inr st'"
  by (cases st) (simp add: coupleEntry_def couple_def entryInGrid_def Let_def)

lemma diagonalPart_Cons: "diagonalPart I i (e # es) = diagonalPart I i [e] + diagonalPart I i es"
  by (simp add: diagonalPart_def)

lemma offDiagonal_Cons: "offDiagonal I i (e # es) = offDiagonal I i [e] @ offDiagonal I i es"
  by (simp add: offDiagonal_def)

lemma solidPart_Cons: "solidPart I (e # es) = solidPart I [e] + solidPart I es"
  by (simp add: solidPart_def)

lemma foldE_coupleEntry:
  "list_all (entryInGrid I) es \<Longrightarrow> 0 \<le> i \<Longrightarrow> nat i < length (rhsVector S) \<Longrightarrow>
   foldE (coupleEntry I i) es (d, S) =
     Inr (d - diagonalPart I i es,
          S\<lparr>sparseElements := sparseElements S @ offDiagonal I i es,
            rhsVector := (rhsVector S)[nat i := rhsVector S ! nat i + solidPart I es]\<rparr>)"
proof (induction es arbitrary: d S)
  case Nil
  then show ?case by (simp add: diagonalPart_def offDiagonal_def solidPart_def)
next
  case (Cons e es)
  let ?S = "S\<lparr>sparseElements := sparseElements S @ offDiagonal I i [e],
        rhsVector := (rhsVector S)[nat i := rhsVector S ! nat i + solidPart I [e]]\<rparr>"
  have e: "entryInGrid I e" and es: "list_all (entryInGrid I) es"
    using Cons.prems(1) by simp_all
  have len: "nat i < length (rhsVector ?S)" using Cons.prems by simp
  have "foldE (coupleEntry I i) (e # es) (d, S) =
        foldE (coupleEntry I i) es (d - diagonalPart I i [e], ?S)"
    using Cons.prems e by (simp add: coupleEntry_step)
  also have "\<dots> = Inr (d - diagonalPart I i [e] - diagonalPart I i es,
      ?S\<lparr>sparseElements := sparseElements ?S @ offDiagonal I i es,
        rhsVector := (rhsVector ?S)[nat i := rhsVector ?S ! nat i + solidPart I es]\<rparr>)"
    by (rule Cons.IH [OF es Cons.prems(2) len])
  also have "\<dots> = Inr (d - diagonalPart I i (e # es),
      S\<lparr>sparseElements := sparseElements S @ offDiagonal I i (e # es),
        rhsVector := (rhsVector S)[nat i := rhsVector S ! nat i + solidPart I (e # es)]\<rparr>)"
    using Cons.prems
    by (simp add: diagonalPart_Cons [of I i e es] offDiagonal_Cons [of I i e es]
        solidPart_Cons [of I e es] algebra_simps)
  finally show ?case .
qed

lemma foldE_coupleEntry_fault:
  "\<not> list_all (entryInGrid I) es \<Longrightarrow>
   \<exists>a g. \<not> inFaceGrid I a g \<and> foldE (coupleEntry I i) es st = Inl (ReadOutsideGrid a g)"
proof (induction es arbitrary: st)
  case Nil
  then show ?case by simp
next
  case (Cons e es)
  show ?case
  proof (cases "entryInGrid I e")
    case False
    then have out: "\<not> inFaceGrid I (fst (snd e)) (snd (snd e))" by (simp add: entryInGrid_def)
    have "foldE (coupleEntry I i) (e # es) st = Inl (ReadOutsideGrid (fst (snd e)) (snd (snd e)))"
      using coupleEntry_fault [OF False, of i st] by simp
    then show ?thesis using out by blast
  next
    case True
    then obtain st' where st': "coupleEntry I i e st = Inr st'"
      using coupleEntry_returns by blast
    have "\<not> list_all (entryInGrid I) es" using Cons.prems True by simp
    then show ?thesis using Cons.IH [of st'] st' by simp
  qed
qed

lemma liquidDOFCount_eq: "liquidDOFCount I = int (length (liquidFaces I))"
  by (simp add: liquidDOFCount_def dofPass_eq)

lemma faceIndex_eq:
  "faceIndex I k = (if isLiquid I k then int (indexOf (liquidFaces I) k) else UNLABELLED_CELL)"
  by (simp add: liquidFaceIndices_def dofPass_eq set_liquidFaces)

lemma faceIndex_nonneg_iff: "0 \<le> faceIndex I k \<longleftrightarrow> isLiquid I k"
  by (simp add: faceIndex_eq UNLABELLED_CELL_def)

lemma faceIndex_less: "isLiquid I k \<Longrightarrow> faceIndex I k < liquidDOFCount I"
  by (simp add: faceIndex_eq liquidDOFCount_eq indexOf_less set_liquidFaces)

lemma faceIndex_inj:
  assumes "isLiquid I k" "isLiquid I k'" "faceIndex I k = faceIndex I k'"
  shows "k = k'"
proof -
  have "indexOf (liquidFaces I) k = indexOf (liquidFaces I) k'"
    using assms by (simp add: faceIndex_eq)
  then have "liquidFaces I ! indexOf (liquidFaces I) k = liquidFaces I ! indexOf (liquidFaces I) k'"
    by simp
  then show ?thesis
    using assms(1,2) by (simp add: nth_indexOf set_liquidFaces)
qed

lemma distinct_liquidFaces: "distinct (liquidFaces I)"
  by (simp add: liquidFaces_def distinct_allFaces)

lemma faceIndex_nth:
  "j < length (liquidFaces I) \<Longrightarrow> faceIndex I (liquidFaces I ! j) = int j"
proof -
  assume j: "j < length (liquidFaces I)"
  then have "liquidFaces I ! j \<in> set (liquidFaces I)" by simp
  then have "isLiquid I (liquidFaces I ! j)" by (simp add: set_liquidFaces)
  then show ?thesis
    using j by (simp add: faceIndex_eq indexOf_nth distinct_liquidFaces)
qed

lemma diagonalPart_append:
  "diagonalPart I i (xs @ ys) = diagonalPart I i xs + diagonalPart I i ys"
  by (simp add: diagonalPart_def)

lemma offDiagonal_append: "offDiagonal I i (xs @ ys) = offDiagonal I i xs @ offDiagonal I i ys"
  by (simp add: offDiagonal_def)

lemma solidPart_append: "solidPart I (xs @ ys) = solidPart I xs + solidPart I ys"
  by (simp add: solidPart_def)

lemma assembleFace_stencil:
  "assembleFace I axis face S =
     (let i = liquidFaceIndices I axis face in
      if 0 \<le> i then
        (case foldE (coupleEntry I i) (stencil I axis face)
                (faceVolumes I axis face,
                 S\<lparr>initialGuessVector := (initialGuessVector S)[nat i := velocity I axis face],
                   rhsVector := (rhsVector S)[nat i := faceVolumes I axis face * velocity I axis face]\<rparr>) of
           Inl f \<Rightarrow> Inl f
         | Inr st \<Rightarrow> Inr ((snd st)\<lparr>sparseElements := sparseElements (snd st) @ [(i, i, fst st)]\<rparr>))
      else Inr S)"
  by (simp add: assembleFace_def Let_def normalStress_fold shearStress_fold stencil_def
      foldE_append split: sum.splits)

lemma assembleFace_liquid:
  assumes i: "0 \<le> faceIndex I k"
    and len: "nat (faceIndex I k) < length (rhsVector S)"
    and g: "stencilInGrid I k"
  shows "assembleFace I (fst k) (snd k) S =
     Inr (S\<lparr>sparseElements := sparseElements S @ rowTriplets I k,
            initialGuessVector := (initialGuessVector S)[nat (faceIndex I k) := faceVelocity I k],
            rhsVector := (rhsVector S)[nat (faceIndex I k) := rowRhs I k]\<rparr>)"
  using i len g
  by (simp add: assembleFace_stencil Let_def stencilInGrid_def foldE_coupleEntry
      rowTriplets_def rowRhs_def rowDiagonal_def algebra_simps)

lemma assembleFace_fault:
  assumes "0 \<le> faceIndex I k" and "\<not> stencilInGrid I k"
  shows "\<exists>a g. \<not> inFaceGrid I a g \<and> assembleFace I (fst k) (snd k) S = Inl (ReadOutsideGrid a g)"
proof -
  let ?i = "faceIndex I k"
  let ?st = "(faceVolumes I (fst k) (snd k),
     S\<lparr>initialGuessVector := (initialGuessVector S)[nat ?i := faceVelocity I k],
       rhsVector := (rhsVector S)[nat ?i := faceVolumes I (fst k) (snd k) * faceVelocity I k]\<rparr>)"
  obtain a g where ag: "\<not> inFaceGrid I a g"
    "foldE (coupleEntry I ?i) (stencil I (fst k) (snd k)) ?st = Inl (ReadOutsideGrid a g)"
    using foldE_coupleEntry_fault [of I "stencil I (fst k) (snd k)" ?i ?st] assms(2)
    unfolding stencilInGrid_def by blast
  have "assembleFace I (fst k) (snd k) S = Inl (ReadOutsideGrid a g)"
    using assms(1) ag(2) by (simp add: assembleFace_stencil Let_def)
  then show ?thesis using ag(1) by blast
qed

lemma assembleFace_other: "\<not> 0 \<le> faceIndex I k \<Longrightarrow> assembleFace I (fst k) (snd k) S = Inr S"
  by (simp add: assembleFace_def Let_def)

lemma assemble_allFaces:
  "assemble I = foldE (\<lambda>k. assembleFace I (fst k) (snd k)) (allFaces I) (emptySystem I)"
  unfolding assemble_def allFaces_def
  apply (rule foldE_concat_map)
  apply (simp only: foldE_map fst_conv snd_conv)
  done

lemma isLiquid_outside:
  "\<not> (axis < 3 \<and> inRange (faceGridSize I axis) face) \<Longrightarrow> \<not> isLiquid I (axis, face)"
  by (auto simp: isLiquid_def materialFaceLabels_def)

section \<open>The assembled system in closed form\<close>

lemma nth_liquidFaces_liquid: "j < length (liquidFaces I) \<Longrightarrow> isLiquid I (liquidFaces I ! j)"
  using nth_mem [of j "liquidFaces I"] by (simp add: set_liquidFaces)

lemma nat_faceIndex: "isLiquid I k \<Longrightarrow> nat (faceIndex I k) = indexOf (liquidFaces I) k"
  by (simp add: faceIndex_eq)



lemma foldE_assembleFace:
  assumes "length (rhsVector S) = length (liquidFaces I)"
    and "length (initialGuessVector S) = length (liquidFaces I)"
    and "\<forall>k \<in> set ks. isLiquid I k \<longrightarrow> stencilInGrid I k"
  shows "\<exists>S'. foldE (\<lambda>k. assembleFace I (fst k) (snd k)) ks S = Inr S'
       \<and> sparseElements S' = sparseElements S @ concat (map (rowTriplets I) (filter (isLiquid I) ks))
       \<and> length (rhsVector S') = length (liquidFaces I)
       \<and> length (initialGuessVector S') = length (liquidFaces I)
       \<and> (\<forall>j < length (liquidFaces I).
            rhsVector S' ! j
              = (if liquidFaces I ! j \<in> set ks then rowRhs I (liquidFaces I ! j) else rhsVector S ! j)
            \<and> initialGuessVector S' ! j
              = (if liquidFaces I ! j \<in> set ks then faceVelocity I (liquidFaces I ! j)
                 else initialGuessVector S ! j))"
  using assms(3)
proof (induction ks rule: rev_induct)
  case Nil
  then show ?case using assms(1,2) by simp
next
  case (snoc k ks)
  let ?L = "liquidFaces I"
  have "\<forall>k \<in> set ks. isLiquid I k \<longrightarrow> stencilInGrid I k" using snoc.prems by simp
  from snoc.IH [OF this] obtain S0 where
    run: "foldE (\<lambda>k. assembleFace I (fst k) (snd k)) ks S = Inr S0"
    and T0: "sparseElements S0 = sparseElements S @ concat (map (rowTriplets I) (filter (isLiquid I) ks))"
    and len0: "length (rhsVector S0) = length ?L" "length (initialGuessVector S0) = length ?L"
    and ent0: "\<forall>j < length ?L.
            rhsVector S0 ! j = (if ?L ! j \<in> set ks then rowRhs I (?L ! j) else rhsVector S ! j)
            \<and> initialGuessVector S0 ! j
              = (if ?L ! j \<in> set ks then faceVelocity I (?L ! j) else initialGuessVector S ! j)"
    by blast
  have step: "foldE (\<lambda>k. assembleFace I (fst k) (snd k)) (ks @ [k]) S = assembleFace I (fst k) (snd k) S0"
    by (simp add: foldE_append run foldE_single del: foldE.simps)
  show ?case
  proof (cases "isLiquid I k")
    case False
    then have same: "assembleFace I (fst k) (snd k) S0 = Inr S0"
      by (simp add: assembleFace_other faceIndex_nonneg_iff)
    have "?L ! j \<noteq> k" if "j < length ?L" for j
      using nth_liquidFaces_liquid [OF that] False by auto
    then show ?thesis
      unfolding step same using T0 len0 ent0 False by simp
  next
    case True
    let ?p = "indexOf ?L k"
    let ?S1 = "S0\<lparr>sparseElements := sparseElements S0 @ rowTriplets I k,
         initialGuessVector := (initialGuessVector S0)[?p := faceVelocity I k],
         rhsVector := (rhsVector S0)[?p := rowRhs I k]\<rparr>"
    have p: "?p < length ?L" "?L ! ?p = k"
      using True by (simp_all add: indexOf_less nth_indexOf set_liquidFaces)
    have i: "0 \<le> faceIndex I k" "nat (faceIndex I k) = ?p"
      using True by (simp_all add: faceIndex_nonneg_iff nat_faceIndex)
    have g: "stencilInGrid I k" using snoc.prems True by simp
    have upd: "assembleFace I (fst k) (snd k) S0 = Inr ?S1"
      using assembleFace_liquid [of I k S0] i p(1) len0 g by simp
    have other: "j = ?p" if "j < length ?L" "?L ! j = k" for j
      using that indexOf_nth [OF distinct_liquidFaces, of j I] by auto
    have T: "sparseElements ?S1
           = sparseElements S @ concat (map (rowTriplets I) (filter (isLiquid I) (ks @ [k])))"
      using T0 True by simp
    have lens: "length (rhsVector ?S1) = length ?L" "length (initialGuessVector ?S1) = length ?L"
      using len0 by simp_all
    have ent: "rhsVector ?S1 ! j
              = (if ?L ! j \<in> set (ks @ [k]) then rowRhs I (?L ! j) else rhsVector S ! j)
            \<and> initialGuessVector ?S1 ! j
              = (if ?L ! j \<in> set (ks @ [k]) then faceVelocity I (?L ! j)
                 else initialGuessVector S ! j)"
      if j: "j < length ?L" for j
    proof (cases "j = ?p")
      case True
      then show ?thesis using len0 p by simp
    next
      case False
      then have "?L ! j \<noteq> k" using other [OF j] by blast
      then show ?thesis using ent0 j False by simp
    qed
    show ?thesis
      unfolding step upd using T lens ent by blast
  qed
qed

lemma foldE_assembleFace_fault:
  assumes "length (rhsVector S) = length (liquidFaces I)"
    and "\<not> (\<forall>k \<in> set ks. isLiquid I k \<longrightarrow> stencilInGrid I k)"
  shows "\<exists>a g. \<not> inFaceGrid I a g
       \<and> foldE (\<lambda>k. assembleFace I (fst k) (snd k)) ks S = Inl (ReadOutsideGrid a g)"
  using assms
proof (induction ks arbitrary: S)
  case Nil
  then show ?case by simp
next
  case (Cons k ks)
  show ?case
  proof (cases "isLiquid I k \<and> \<not> stencilInGrid I k")
    case True
    then obtain a g where "\<not> inFaceGrid I a g"
      "assembleFace I (fst k) (snd k) S = Inl (ReadOutsideGrid a g)"
      using assembleFace_fault [of I k S] by (auto simp: faceIndex_nonneg_iff)
    then have "\<not> inFaceGrid I a g
       \<and> foldE (\<lambda>k. assembleFace I (fst k) (snd k)) (k # ks) S = Inl (ReadOutsideGrid a g)"
      by simp
    then show ?thesis by blast
  next
    case False
    then have rest: "\<not> (\<forall>k \<in> set ks. isLiquid I k \<longrightarrow> stencilInGrid I k)"
      using Cons.prems(2) by auto
    have "\<exists>S1. assembleFace I (fst k) (snd k) S = Inr S1
        \<and> length (rhsVector S1) = length (liquidFaces I)"
    proof (cases "isLiquid I k")
      case True
      then have g: "stencilInGrid I k" using False by simp
      have i: "0 \<le> faceIndex I k" "nat (faceIndex I k) < length (rhsVector S)"
        using True Cons.prems(1)
        by (simp_all add: faceIndex_nonneg_iff nat_faceIndex indexOf_less set_liquidFaces)
      show ?thesis
        using assembleFace_liquid [OF i g] Cons.prems(1) by simp
    next
      case False
      then show ?thesis
        using Cons.prems(1) by (simp add: assembleFace_other faceIndex_nonneg_iff)
    qed
    then obtain S1 where S1: "assembleFace I (fst k) (snd k) S = Inr S1"
      "length (rhsVector S1) = length (liquidFaces I)"
      by blast
    show ?thesis
      using Cons.IH [OF S1(2) rest] S1(1) by simp
  qed
qed

lemma readsInGrid_iff:
  "readsInGrid I \<longleftrightarrow> (\<forall>k \<in> set (allFaces I). isLiquid I k \<longrightarrow> stencilInGrid I k)"
  by (auto simp: readsInGrid_def list_all_iff liquidFaces_def)

lemma readsInGrid_liquid: "readsInGrid I \<Longrightarrow> isLiquid I k \<Longrightarrow> stencilInGrid I k"
  unfolding readsInGrid_def list_all_iff set_liquidFaces by blast

lemma assemble_returns:
  assumes "readsInGrid I"
  shows "assemble I = Inr (systemByRows I)"
proof -
  have len: "length (rhsVector (emptySystem I)) = length (liquidFaces I)"
    "length (initialGuessVector (emptySystem I)) = length (liquidFaces I)"
    by (simp_all add: emptySystem_def liquidDOFCount_eq)
  have all: "\<forall>k \<in> set (allFaces I). isLiquid I k \<longrightarrow> stencilInGrid I k"
    using assms by (simp add: readsInGrid_iff)
  from foldE_assembleFace [OF len all, folded assemble_allFaces]
  obtain S' where S': "assemble I = Inr S'"
    and T: "sparseElements S' = sparseElements (emptySystem I)
              @ concat (map (rowTriplets I) (filter (isLiquid I) (allFaces I)))"
    and l: "length (rhsVector S') = length (liquidFaces I)"
      "length (initialGuessVector S') = length (liquidFaces I)"
    and ent: "\<forall>j < length (liquidFaces I).
            rhsVector S' ! j
              = (if liquidFaces I ! j \<in> set (allFaces I) then rowRhs I (liquidFaces I ! j)
                 else rhsVector (emptySystem I) ! j)
            \<and> initialGuessVector S' ! j
              = (if liquidFaces I ! j \<in> set (allFaces I) then faceVelocity I (liquidFaces I ! j)
                 else initialGuessVector (emptySystem I) ! j)"
    by blast
  have mem: "liquidFaces I ! j \<in> set (allFaces I)" if "j < length (liquidFaces I)" for j
    using nth_liquidFaces_liquid [OF that] by (rule liquid_in_allFaces)
  have 1: "sparseElements S' = concat (map (rowTriplets I) (liquidFaces I))"
    using T by (simp add: emptySystem_def liquidFaces_def)
  have 2: "rhsVector S' = map (rowRhs I) (liquidFaces I)"
    by (rule nth_equalityI) (use l ent mem in auto)
  have 3: "initialGuessVector S' = map (faceVelocity I) (liquidFaces I)"
    by (rule nth_equalityI) (use l ent mem in auto)
  have "S' = systemByRows I"
    using 1 2 3 by (simp add: systemByRows_def)
  then show ?thesis using S' by simp
qed

lemma assemble_faults:
  assumes "\<not> readsInGrid I"
  shows "\<exists>a g. \<not> inFaceGrid I a g \<and> assemble I = Inl (ReadOutsideGrid a g)"
proof -
  have len: "length (rhsVector (emptySystem I)) = length (liquidFaces I)"
    by (simp add: emptySystem_def liquidDOFCount_eq)
  have "\<not> (\<forall>k \<in> set (allFaces I). isLiquid I k \<longrightarrow> stencilInGrid I k)"
    using assms by (simp add: readsInGrid_iff)
  from foldE_assembleFace_fault [OF len this, folded assemble_allFaces]
  show ?thesis .
qed

lemma assemble_Inr_iff: "assemble I = Inr S \<longleftrightarrow> readsInGrid I \<and> S = systemByRows I"
  using assemble_returns [of I] assemble_faults [of I] by (cases "readsInGrid I") auto

lemma assemble_closed:
  assumes "assemble I = Inr S"
  shows "sparseElements S = concat (map (rowTriplets I) (liquidFaces I))"
    and "rhsVector S = map (rowRhs I) (liquidFaces I)"
    and "initialGuessVector S = map (faceVelocity I) (liquidFaces I)"
  using assms by (simp_all add: assemble_Inr_iff systemByRows_def)

section \<open>The example grids, evaluated\<close>

lemma example_liquidFaces:
  "liquidFaces exampleInputs = [(0, (1, 0, 0)), (0, (1, 1, 0)), (1, (0, 1, 0))]"
  by code_simp

lemma example_labels:
  "materialFaceLabels exampleInputs 0 (1, 0, 0) = LIQUID_FACE"
  "materialFaceLabels exampleInputs 0 (1, 1, 0) = LIQUID_FACE"
  "materialFaceLabels exampleInputs 1 (0, 1, 0) = LIQUID_FACE"
  "materialFaceLabels exampleInputs 1 (1, 1, 0) = SOLID_FACE"
  "materialFaceLabels exampleInputs 0 (0, 0, 0) = AIR_FACE"
  by code_simp+

lemma example_indices:
  "liquidFaceIndices exampleInputs 0 (1, 0, 0) = 0"
  "liquidFaceIndices exampleInputs 0 (1, 1, 0) = 1"
  "liquidFaceIndices exampleInputs 1 (0, 1, 0) = 2"
  "liquidFaceIndices exampleInputs 1 (1, 1, 0) = - 1"
  "liquidFaceIndices exampleInputs 0 (0, 0, 0) = - 1"
  by code_simp+

lemma example_assemble: "assemble exampleInputs = Inr exampleSystem"
  by code_simp

text \<open>
  In the tank the first LIQUID face, \<open>(0, (1, 0, 0))\<close>, lies in the first layer of the
  grid along axis 2. The edge of axis 1 at its coordinate has positive volume, and the
  face of axis 0 across that edge is \<open>(1, 0, -1)\<close>: the assembly stops there.
\<close>

lemma tank_assembly_faults:
  "materialFaceLabels tankInputs 0 (1, 0, 0) = LIQUID_FACE"
  "(1, 0, (1, 0, - 1)) \<in> set (stencil tankInputs 0 (1, 0, 0))"
  "\<not> inFaceGrid tankInputs 0 (1, 0, - 1)"
  "assemble tankInputs = Inl (ReadOutsideGrid 0 (1, 0, - 1))"
  "\<not> rimEdgesClear tankInputs (0, (1, 0, 0))"
  by code_simp+

section \<open>Claims about the solve and the scatter\<close>

lemma fault_ends_call: "assemble I = Inl f \<Longrightarrow> ViscositySolver solver I = Inl f"
  by (simp add: ViscositySolver_def)

text \<open>
  Claim C2. Let the assembly return the system \<open>S\<close>. When the solver reports anything
  but success after \<^verbatim>\<open>compute\<close>, or after \<^verbatim>\<open>solveWithGuess\<close>, the call returns
  the velocity field it was given, at every face, and prints one diagnostic line:
  "Solver failed to build" in the first case, "Solver failed to converge" in the second.
  The call returns a result in both cases.
\<close>

theorem failure_keeps_velocity:
  assumes "assemble I = Inr S"
  shows "(builtInfo solver I S \<noteq> Success \<longrightarrow>
            ViscositySolver solver I
            = Inr \<lparr>velocityAfter = velocity I, printed = [SolverFailedToBuild]\<rparr>)
       \<and> (builtInfo solver I S = Success \<and> solveInfo (solved solver I S) \<noteq> Success \<longrightarrow>
            ViscositySolver solver I
            = Inr \<lparr>velocityAfter = velocity I, printed = [SolverFailedToConverge]\<rparr>)"
  using assms by (simp add: ViscositySolver_def builtInfo_def solved_def Let_def)

theorem failure_keeps_velocity_witness:
  "assemble exampleInputs = Inr exampleSystem
   \<and> builtInfo buildFailingSolver exampleInputs exampleSystem = NumericalIssue
   \<and> ViscositySolver buildFailingSolver exampleInputs
       = Inr \<lparr>velocityAfter = velocity exampleInputs, printed = [SolverFailedToBuild]\<rparr>
   \<and> builtInfo stallingSolver exampleInputs exampleSystem = Success
   \<and> solveInfo (solved stallingSolver exampleInputs exampleSystem) = NoConvergence
   \<and> solutionVector (solved stallingSolver exampleInputs exampleSystem) = [4, 4, 6]
   \<and> ViscositySolver stallingSolver exampleInputs
       = Inr \<lparr>velocityAfter = velocity exampleInputs, printed = [SolverFailedToConverge]\<rparr>"
proof -
  have b: "builtInfo buildFailingSolver exampleInputs exampleSystem = NumericalIssue"
    by (simp add: builtInfo_def buildFailingSolver_def)
  have s: "builtInfo stallingSolver exampleInputs exampleSystem = Success"
    "solveInfo (solved stallingSolver exampleInputs exampleSystem) = NoConvergence"
    "solutionVector (solved stallingSolver exampleInputs exampleSystem) = [4, 4, 6]"
    by (simp_all add: builtInfo_def solved_def stallingSolver_def exampleSystem_def)
  show ?thesis
    using failure_keeps_velocity [OF example_assemble, of buildFailingSolver]
      failure_keeps_velocity [OF example_assemble, of stallingSolver] b s
    by (simp add: example_assemble)
qed

text \<open>
  Claim C1. Let the assembly return the system \<open>S\<close>. When both calls of the solver
  report success, the call returns, and the velocity after the call is, at every axis and
  coordinate, the entry of the solution at the face's index if the face is labelled
  LIQUID, and the velocity before the call otherwise; the call prints the iteration count
  and the error. The LIQUID faces are the faces with a non-negative index, and every
  index is below the number of degrees of freedom.
\<close>

theorem success_scatters_liquid_faces:
  assumes "assemble I = Inr S"
    and "builtInfo solver I S = Success" and "solveInfo (solved solver I S) = Success"
  shows "ViscositySolver solver I =
           Inr \<lparr>velocityAfter =
                  (\<lambda>axis face.
                     if materialFaceLabels I axis face = LIQUID_FACE
                     then solutionVector (solved solver I S) ! nat (liquidFaceIndices I axis face)
                     else velocity I axis face),
                printed = [SolverIterations (solveIterations (solved solver I S)),
                           SolverError (solveError (solved solver I S))]\<rparr>
         \<and> (materialFaceLabels I axis face = LIQUID_FACE
              \<longleftrightarrow> 0 \<le> liquidFaceIndices I axis face)
         \<and> liquidFaceIndices I axis face < liquidDOFCount I"
proof -
  have iff: "(materialFaceLabels I a f = LIQUID_FACE) = (0 \<le> liquidFaceIndices I a f)" for a f
    using faceIndex_nonneg_iff [of I "(a, f)"] by (simp add: isLiquid_def)
  have lt: "liquidFaceIndices I axis face < liquidDOFCount I"
  proof (cases "isLiquid I (axis, face)")
    case True
    then show ?thesis using faceIndex_less [of I "(axis, face)"] by simp
  next
    case False
    then have "liquidFaceIndices I axis face = - 1"
      using faceIndex_eq [of I "(axis, face)"] by (simp add: UNLABELLED_CELL_def)
    then show ?thesis by (simp add: liquidDOFCount_eq)
  qed
  have sc: "scatter I x a f =
      (if materialFaceLabels I a f = LIQUID_FACE then x ! nat (liquidFaceIndices I a f)
       else velocity I a f)" for x a f
    using iff [of a f] isLiquid_outside [of a I f]
    by (auto simp: scatter_def isLiquid_def)
  have "ViscositySolver solver I =
          Inr \<lparr>velocityAfter = scatter I (solutionVector (solved solver I S)),
               printed = [SolverIterations (solveIterations (solved solver I S)),
                          SolverError (solveError (solved solver I S))]\<rparr>"
    using assms by (simp add: ViscositySolver_def builtInfo_def solved_def Let_def)
  moreover have "scatter I (solutionVector (solved solver I S)) =
      (\<lambda>axis face.
         if materialFaceLabels I axis face = LIQUID_FACE
         then solutionVector (solved solver I S) ! nat (liquidFaceIndices I axis face)
         else velocity I axis face)"
    by (intro ext) (rule sc)
  ultimately show ?thesis using iff [of axis face] lt by simp
qed

theorem success_scatters_liquid_faces_witness:
  "assemble exampleInputs = Inr exampleSystem
   \<and> builtInfo constantSolver exampleInputs exampleSystem = Success
   \<and> solveInfo (solved constantSolver exampleInputs exampleSystem) = Success
   \<and> solutionVector (solved constantSolver exampleInputs exampleSystem) = [20, - 8, 24]
   \<and> materialFaceLabels exampleInputs 0 (1, 0, 0) = LIQUID_FACE
   \<and> materialFaceLabels exampleInputs 1 (1, 1, 0) = SOLID_FACE
   \<and> materialFaceLabels exampleInputs 0 (0, 0, 0) = AIR_FACE
   \<and> velocity exampleInputs 0 (1, 0, 0) = 3
   \<and> (\<exists>out. ViscositySolver constantSolver exampleInputs = Inr out
         \<and> velocityAfter out 0 (1, 0, 0) = 20
         \<and> velocityAfter out 1 (1, 1, 0) = 5
         \<and> velocityAfter out 0 (0, 0, 0) = 3
         \<and> printed out = [SolverIterations 1, SolverError 0])"
proof -
  have ok: "builtInfo constantSolver exampleInputs exampleSystem = Success"
    "solveInfo (solved constantSolver exampleInputs exampleSystem) = Success"
    by (simp_all add: builtInfo_def solved_def constantSolver_def)
  have sol: "solutionVector (solved constantSolver exampleInputs exampleSystem) = [20, - 8, 24]"
    "solveIterations (solved constantSolver exampleInputs exampleSystem) = 1"
    "solveError (solved constantSolver exampleInputs exampleSystem) = 0"
    by (simp_all add: solved_def constantSolver_def exampleSystem_def)
  have vel: "velocity exampleInputs 0 (1, 0, 0) = 3" "velocity exampleInputs 1 (1, 1, 0) = 5"
    "velocity exampleInputs 0 (0, 0, 0) = 3"
    by (simp_all add: exampleInputs_def)
  show ?thesis
    using success_scatters_liquid_faces [OF example_assemble ok, of 0 "(1, 0, 0)"]
    by (simp add: example_assemble ok sol example_labels vel example_indices del: One_nat_def)
qed

section \<open>The numbering follows the raster order\<close>

lemma sorted_wrt_concat_map:
  assumes "sorted_wrt P xs"
    and "\<And>x. x \<in> set xs \<Longrightarrow> sorted_wrt R (f x)"
    and "\<And>x y a b. x \<in> set xs \<Longrightarrow> y \<in> set xs \<Longrightarrow> P x y \<Longrightarrow> a \<in> set (f x) \<Longrightarrow> b \<in> set (f y) \<Longrightarrow> R a b"
  shows "sorted_wrt R (concat (map f xs))"
  using assms
proof (induction xs)
  case Nil
  then show ?case by simp
next
  case (Cons x xs)
  have tl: "sorted_wrt R (concat (map f xs))"
  proof (rule Cons.IH)
    show "sorted_wrt P xs" using Cons.prems(1) by simp
    show "sorted_wrt R (f y)" if "y \<in> set xs" for y
      using Cons.prems(2) [of y] that by simp
    show "R a b" if "x' \<in> set xs" "y \<in> set xs" "P x' y" "a \<in> set (f x')" "b \<in> set (f y)"
      for x' y a b
      using Cons.prems(3) [of x' y a b] that by simp
  qed
  have hd: "sorted_wrt R (f x)" using Cons.prems(2) by simp
  have cross: "R a b" if "a \<in> set (f x)" "y \<in> set xs" "b \<in> set (f y)" for a b y
    using Cons.prems(1) Cons.prems(3) [of x y a b] that by auto
  show ?case using tl hd cross by (auto simp: sorted_wrt_append)
qed

lemma sorted_wrt_upto: "sorted_wrt (<) [i..j]"
  using sorted_wrt_upto by simp

lemma sorted_voxels: "sorted_wrt (\<lambda>c c'. rasterBefore (a, c) (a, c')) (voxels s)"
proof -
  obtain sx sy sz where s: "s = (sx, sy, sz)" by (cases s)
  show ?thesis unfolding s voxels.simps
    apply (rule sorted_wrt_concat_map [where P = "(<)"])
      apply (rule sorted_wrt_upto)
     apply (rule sorted_wrt_concat_map [where P = "(<)"])
       apply (rule sorted_wrt_upto)
      apply (simp add: sorted_wrt_map sorted_wrt_upto)
     apply auto
    done
qed

lemma sorted_allFaces: "sorted_wrt rasterBefore (allFaces I)"
  unfolding allFaces_def
  apply (rule sorted_wrt_concat_map [where P = "(<)"])
    apply simp
   apply (simp add: sorted_wrt_map sorted_voxels)
  apply auto
  done

lemma sorted_liquidFaces: "sorted_wrt rasterBefore (liquidFaces I)"
  by (simp add: liquidFaces_def sorted_allFaces sorted_wrt_filter)

lemma rasterBefore_irrefl: "\<not> rasterBefore k k"
  by (cases k) auto

lemma rasterBefore_asym: "rasterBefore k k' \<Longrightarrow> \<not> rasterBefore k' k"
  by (cases k; cases k') auto

lemma rasterBefore_total: "k \<noteq> k' \<Longrightarrow> rasterBefore k k' \<or> rasterBefore k' k"
  by (cases k; cases k') auto

lemma faceIndex_mono:
  assumes "isLiquid I k" "isLiquid I k'" "rasterBefore k k'"
  shows "faceIndex I k < faceIndex I k'"
proof -
  let ?L = "liquidFaces I"
  let ?j = "indexOf ?L k" and ?j' = "indexOf ?L k'"
  have in_L: "k \<in> set ?L" "k' \<in> set ?L" using assms by (simp_all add: set_liquidFaces)
  have j: "?j < length ?L" "?L ! ?j = k" "?j' < length ?L" "?L ! ?j' = k'"
    using in_L by (simp_all add: indexOf_less nth_indexOf)
  have "\<not> ?j' < ?j"
  proof
    assume "?j' < ?j"
    then have "rasterBefore (?L ! ?j') (?L ! ?j)"
      using sorted_liquidFaces [of I] j(1) by (simp add: sorted_wrt_iff_nth_less)
    then show False using assms(3) rasterBefore_asym j by metis
  qed
  moreover have "?j \<noteq> ?j'"
    using assms(3) j rasterBefore_irrefl by metis
  ultimately have "?j < ?j'" by simp
  then show ?thesis using assms by (simp add: faceIndex_eq)
qed

lemma faceIndex_order:
  assumes "isLiquid I k" "isLiquid I k'"
  shows "rasterBefore k k' \<longleftrightarrow> faceIndex I k < faceIndex I k'"
proof
  assume "rasterBefore k k'" then show "faceIndex I k < faceIndex I k'"
    using assms faceIndex_mono by blast
next
  assume lt: "faceIndex I k < faceIndex I k'"
  then have "k \<noteq> k'" by auto
  then have "rasterBefore k k' \<or> rasterBefore k' k" by (rule rasterBefore_total)
  then show "rasterBefore k k'"
    using faceIndex_mono [OF assms(2) assms(1)] lt by fastforce
qed

lemma map_faceIndex_liquidFaces:
  "map (faceIndex I) (liquidFaces I) = map int [0..<length (liquidFaces I)]"
  by (rule nth_equalityI) (simp_all add: faceIndex_nth)

lemma finite_liquid: "finite {k. isLiquid I k}"
  using set_liquidFaces [of I, symmetric] by (metis List.finite_set)

lemma card_liquid: "card {k. isLiquid I k} = length (liquidFaces I)"
  using distinct_card [OF distinct_liquidFaces, of I] by (simp add: set_liquidFaces)

lemma bij_faceIndex:
  "bij_betw (faceIndex I) {k. isLiquid I k} {i. 0 \<le> i \<and> i < liquidDOFCount I}"
  unfolding bij_betw_def
proof
  show "inj_on (faceIndex I) {k. isLiquid I k}"
    by (rule inj_onI) (simp add: faceIndex_inj)
  show "faceIndex I ` {k. isLiquid I k} = {i. 0 \<le> i \<and> i < liquidDOFCount I}"
  proof (rule set_eqI, rule iffI)
    fix i assume "i \<in> faceIndex I ` {k. isLiquid I k}"
    then show "i \<in> {i. 0 \<le> i \<and> i < liquidDOFCount I}"
      using faceIndex_less faceIndex_nonneg_iff by auto
  next
    fix i assume "i \<in> {i. 0 \<le> i \<and> i < liquidDOFCount I}"
    then have i: "0 \<le> i" "nat i < length (liquidFaces I)"
      by (auto simp: liquidDOFCount_eq nat_less_iff)
    then have "liquidFaces I ! nat i \<in> set (liquidFaces I)" by simp
    then have "isLiquid I (liquidFaces I ! nat i)" by (simp add: set_liquidFaces)
    moreover have "faceIndex I (liquidFaces I ! nat i) = i"
      using i by (simp add: faceIndex_nth)
    ultimately show "i \<in> faceIndex I ` {k. isLiquid I k}" by force
  qed
qed

lemma dofPass_depends_on_labels:
  assumes "materialFaceLabels I' = materialFaceLabels I" and "gridSize I' = gridSize I"
  shows "dofPass I' = dofPass I"
proof -
  have "dofStep I' = dofStep I"
    by (simp add: fun_eq_iff dofStep_def assms(1))
  then show ?thesis
    by (simp add: dofPass_def faceGridSize_def assms(2))
qed

text \<open>
  Claim C3. After the numbering pass, a face has a non-negative index exactly when it is
  labelled LIQUID; the index is a bijection between the LIQUID faces and the integers
  from 0 below the count \<open>liquidDOFCount\<close>, which is the number of LIQUID faces; the
  LIQUID faces, listed in the order of the pass, carry the indices 0, 1, 2 and so on
  with no gap; between two LIQUID faces the one that comes first in the
  axis-then-coordinate order has the smaller index; and the indices are a function of
  the labels and the grid size alone.
\<close>

theorem dof_numbering_dense_in_raster_order:
  "(0 \<le> faceIndex I k \<longleftrightarrow> materialFaceLabels I (fst k) (snd k) = LIQUID_FACE)
   \<and> bij_betw (faceIndex I) {k. materialFaceLabels I (fst k) (snd k) = LIQUID_FACE}
        {i. 0 \<le> i \<and> i < liquidDOFCount I}
   \<and> liquidDOFCount I = int (card {k. materialFaceLabels I (fst k) (snd k) = LIQUID_FACE})
   \<and> map (faceIndex I) (filter (isLiquid I) (allFaces I)) = map int [0..<nat (liquidDOFCount I)]
   \<and> (isLiquid I k \<and> isLiquid I k' \<longrightarrow>
        (rasterBefore k k' \<longleftrightarrow> faceIndex I k < faceIndex I k'))
   \<and> (materialFaceLabels I' = materialFaceLabels I \<and> gridSize I' = gridSize I \<longrightarrow>
        liquidFaceIndices I' = liquidFaceIndices I \<and> liquidDOFCount I' = liquidDOFCount I)"
proof -
  have eq: "{k. materialFaceLabels I (fst k) (snd k) = LIQUID_FACE} = {k. isLiquid I k}"
    by (simp add: isLiquid_def)
  have 1: "0 \<le> faceIndex I k \<longleftrightarrow> materialFaceLabels I (fst k) (snd k) = LIQUID_FACE"
    by (simp add: faceIndex_nonneg_iff isLiquid_def)
  have 2: "bij_betw (faceIndex I) {k. materialFaceLabels I (fst k) (snd k) = LIQUID_FACE}
        {i. 0 \<le> i \<and> i < liquidDOFCount I}"
    unfolding eq by (rule bij_faceIndex)
  have 3: "liquidDOFCount I = int (card {k. materialFaceLabels I (fst k) (snd k) = LIQUID_FACE})"
    unfolding eq by (simp add: liquidDOFCount_eq card_liquid)
  have 4: "map (faceIndex I) (filter (isLiquid I) (allFaces I)) = map int [0..<nat (liquidDOFCount I)]"
    using map_faceIndex_liquidFaces [of I] by (simp add: liquidFaces_def liquidDOFCount_eq)
  have 5: "isLiquid I k \<and> isLiquid I k' \<longrightarrow>
        (rasterBefore k k' \<longleftrightarrow> faceIndex I k < faceIndex I k')"
    using faceIndex_order by blast
  have 6: "materialFaceLabels I' = materialFaceLabels I \<and> gridSize I' = gridSize I \<longrightarrow>
        liquidFaceIndices I' = liquidFaceIndices I \<and> liquidDOFCount I' = liquidDOFCount I"
  proof
    assume "materialFaceLabels I' = materialFaceLabels I \<and> gridSize I' = gridSize I"
    then have "dofPass I' = dofPass I" by (intro dofPass_depends_on_labels) simp_all
    then show "liquidFaceIndices I' = liquidFaceIndices I \<and> liquidDOFCount I' = liquidDOFCount I"
      by (simp add: liquidFaceIndices_def liquidDOFCount_def fun_eq_iff)
  qed
  show ?thesis using 1 2 3 4 5 6 by blast
qed

lemma example_allFaces_liquid:
  "allFaces exampleInputs = [(0, 0, 0, 0), (0, 0, 1, 0), (0, 1, 0, 0), (0, 1, 1, 0), (0, 2, 0, 0),
  (0, 2, 1, 0), (1, 0, 0, 0), (1, 0, 1, 0), (1, 0, 2, 0), (1, 1, 0, 0),
  (1, 1, 1, 0), (1, 1, 2, 0), (2, 0, 0, 0), (2, 0, 0, 1), (2, 0, 1, 0),
  (2, 0, 1, 1), (2, 1, 0, 0), (2, 1, 0, 1), (2, 1, 1, 0), (2, 1, 1, 1)]"
  by code_simp

lemma example_count: "liquidDOFCount exampleInputs = 3"
  by code_simp

theorem dof_numbering_dense_in_raster_order_witness:
  "filter (isLiquid exampleInputs) (allFaces exampleInputs) = [(0, (1, 0, 0)), (0, (1, 1, 0)), (1, (0, 1, 0))]
   \<and> map (faceIndex exampleInputs) [(0, (1, 0, 0)), (0, (1, 1, 0)), (1, (0, 1, 0))] = [0, 1, 2]
   \<and> liquidDOFCount exampleInputs = 3
   \<and> card {k. materialFaceLabels exampleInputs (fst k) (snd k) = LIQUID_FACE} = 3
   \<and> isLiquid exampleInputs (0, (1, 1, 0)) \<and> isLiquid exampleInputs (1, (0, 1, 0))
   \<and> rasterBefore (0, (1, 1, 0)) (1, (0, 1, 0))
   \<and> faceIndex exampleInputs (0, (1, 1, 0)) < faceIndex exampleInputs (1, (0, 1, 0))
   \<and> liquidFaceIndices (exampleInputs\<lparr>dt := 2\<rparr>) = liquidFaceIndices exampleInputs"
proof -
  have liq: "isLiquid exampleInputs (0, (1, 1, 0))" "isLiquid exampleInputs (1, (0, 1, 0))"
    by (simp_all add: isLiquid_def example_labels del: One_nat_def)
  have lab: "materialFaceLabels (exampleInputs\<lparr>dt := 2\<rparr>) = materialFaceLabels exampleInputs"
    by (simp add: fun_eq_iff materialFaceLabels_def classifyFace_def isFaceInSolve_def
        cellFlag_def edgeFlag_def faceGridSize_def)
  have L: "filter (isLiquid exampleInputs) (allFaces exampleInputs) = [(0, (1, 0, 0)), (0, (1, 1, 0)), (1, (0, 1, 0))]"
    using example_liquidFaces by (simp add: liquidFaces_def)
  show ?thesis
    using dof_numbering_dense_in_raster_order [of exampleInputs "(0, (1, 1, 0))" "(1, (0, 1, 0))" "exampleInputs\<lparr>dt := 2\<rparr>"]
    by (simp add: L liq lab example_count example_indices del: One_nat_def)
qed

section \<open>Claims about the face classifier\<close>

lemma cellFlag_iff:
  "cellFlag I a f False \<longleftrightarrow> (\<exists>cell \<in> set (adjacentCells a f). centerVolumes I cell > 0)"
  by (auto simp: cellFlag_def adjacentCells_def)

lemma edgeFlag_iff:
  "a < 3 \<Longrightarrow> edgeFlag I a f False \<longleftrightarrow> (\<exists>e \<in> set (incidentEdges a f). edgeVolumes I (fst e) (snd e) > 0)"
  by (auto simp: edgeFlag_def incidentEdges_def axis_cases)

lemma isFaceInSolve_iff: "a < 3 \<Longrightarrow> isFaceInSolve I a f \<longleftrightarrow> inSolveSpec I a f"
  using cellFlag_iff [of I a f] edgeFlag_iff [of a I f]
  by (auto simp: isFaceInSolve_def inSolveSpec_def Let_def)

lemma vget_faceGridSize: "a < 3 \<Longrightarrow> vget (faceGridSize I a) a = vget (gridSize I) a + 1"
  by (cases "gridSize I") (auto simp: faceGridSize_def vinc_def axis_cases)

text \<open>
  Claim C5. For a face of the grid that is not at index 0 or at the maximal index along
  its own axis: the face is in the solve exactly when one of its two adjacent cells has
  positive center volume or one of its four incident edges has positive edge volume (the
  source looks at the edges only when no cell qualified, which decides the same); a face
  in the solve is labelled SOLID when the solid surface interpolated at the face is at
  most 0 and LIQUID otherwise; a face not in the solve stays AIR.
\<close>

theorem classifier_labels_inner_faces:
  assumes "axis < 3" and "inRange (faceGridSize I axis) face"
    and "vget face axis \<noteq> 0" and "vget face axis \<noteq> vget (gridSize I) axis"
  shows "materialFaceLabels I axis face =
           (if inSolveSpec I axis face
            then (if solidSurfaceAtFace I axis face \<le> 0 then SOLID_FACE else LIQUID_FACE)
            else AIR_FACE)
         \<and> length (adjacentCells axis face) = 2 \<and> length (incidentEdges axis face) = 4
         \<and> (isFaceInSolve I axis face
              \<longleftrightarrow> (if cellFlag I axis face False then True else edgeFlag I axis face False))"
proof -
  have "materialFaceLabels I axis face =
           (if inSolveSpec I axis face
            then (if solidSurfaceAtFace I axis face \<le> 0 then SOLID_FACE else LIQUID_FACE)
            else AIR_FACE)"
    using assms by (simp add: materialFaceLabels_def classifyFace_def isFaceInSolve_iff vget_faceGridSize)
  moreover have "length (incidentEdges axis face) = 4"
    using assms(1) by (auto simp: incidentEdges_def axis_cases)
  moreover have "isFaceInSolve I axis face
              \<longleftrightarrow> (if cellFlag I axis face False then True else edgeFlag I axis face False)"
    by (simp add: isFaceInSolve_def Let_def)
  ultimately show ?thesis by (simp add: adjacentCells_def)
qed


theorem classifier_labels_inner_faces_witness:
  "inSolveSpec exampleInputs 0 (1, 0, 0)
   \<and> materialFaceLabels exampleInputs 0 (1, 0, 0) = LIQUID_FACE
   \<and> solidSurfaceAtFace exampleInputs 1 (1, 1, 0) = - 1
   \<and> materialFaceLabels exampleInputs 1 (1, 1, 0) = SOLID_FACE
   \<and> \<not> cellFlag (exampleInputs\<lparr>centerVolumes := \<lambda>cell. 0\<rparr>) 0 (1, 0, 0) False
   \<and> materialFaceLabels (exampleInputs\<lparr>centerVolumes := \<lambda>cell. 0\<rparr>) 0 (1, 0, 0) = LIQUID_FACE
   \<and> materialFaceLabels
        (exampleInputs\<lparr>centerVolumes := \<lambda>cell. 0, edgeVolumes := \<lambda>axis edge. 0\<rparr>) 0 (1, 0, 0)
      = AIR_FACE"
proof -
  have r: "inRange (faceGridSize J 0) (1, 0, 0)" "inRange (faceGridSize J 1) (1, 1, 0)"
    "vget (1, 0, 0) 0 \<noteq> vget (gridSize J) 0" "vget (1, 1, 0) 1 \<noteq> vget (gridSize J) 1"
    if "gridSize J = (2, 2, 1)" for J
    using that by (simp_all add: faceGridSize_def vinc_def)
  have g: "gridSize exampleInputs = (2, 2, 1)"
    "gridSize (exampleInputs\<lparr>centerVolumes := \<lambda>cell. 0\<rparr>) = (2, 2, 1)"
    "gridSize (exampleInputs\<lparr>centerVolumes := \<lambda>cell. 0, edgeVolumes := \<lambda>axis edge. 0\<rparr>) = (2, 2, 1)"
    by (simp_all add: exampleInputs_def)
  have s: "inSolveSpec exampleInputs 0 (1, 0, 0)" "inSolveSpec exampleInputs 1 (1, 1, 0)"
    "inSolveSpec (exampleInputs\<lparr>centerVolumes := \<lambda>cell. 0\<rparr>) 0 (1, 0, 0)"
    "\<not> inSolveSpec (exampleInputs\<lparr>centerVolumes := \<lambda>cell. 0, edgeVolumes := \<lambda>axis edge. 0\<rparr>) 0 (1, 0, 0)"
    "\<not> cellFlag (exampleInputs\<lparr>centerVolumes := \<lambda>cell. 0\<rparr>) 0 (1, 0, 0) False"
    by (simp_all add: inSolveSpec_def adjacentCells_def incidentEdges_def exampleInputs_def
        faceToCell_def faceToEdge_def vinc_def vdec_def cellFlag_def)
  have v: "solidSurfaceAtFace exampleInputs 1 (1, 1, 0) = - 1"
    "solidSurfaceAtFace exampleInputs 0 (1, 0, 0) = 1"
    "solidSurfaceAtFace (exampleInputs\<lparr>centerVolumes := \<lambda>cell. 0\<rparr>) 0 (1, 0, 0) = 1"
    by (simp_all add: exampleInputs_def)
  show ?thesis
    using classifier_labels_inner_faces [of 0 exampleInputs "(1, 0, 0)"]
      classifier_labels_inner_faces [of 1 exampleInputs "(1, 1, 0)"]
      classifier_labels_inner_faces [of 0 "exampleInputs\<lparr>centerVolumes := \<lambda>cell. 0\<rparr>" "(1, 0, 0)"]
      classifier_labels_inner_faces [of 0
        "exampleInputs\<lparr>centerVolumes := \<lambda>cell. 0, edgeVolumes := \<lambda>axis edge. 0\<rparr>" "(1, 0, 0)"]
      r [OF g(1)] r [OF g(2)] r [OF g(3)]
    by (simp add: s v g del: One_nat_def)
qed

lemma example_call:
  "ViscositySolver constantSolver exampleInputs =
     Inr \<lparr>velocityAfter = scatter exampleInputs [20, - 8, 24],
          printed = [SolverIterations 1, SolverError 0]\<rparr>"
  by (simp add: ViscositySolver_def example_assemble constantSolver_def exampleSystem_def Let_def)

text \<open>
  Claim C4. A face whose index along its own axis is 0 or the maximal index keeps the
  label AIR and the unlabelled index, is not among the faces that get a row of the
  system, changes nothing as a neighbour in another face's stencil (the dispatch returns
  the state it was given when the face lies in the grid) or in its own turn of the
  assembly loop, and keeps its velocity through every call that returns, whatever the
  solver returns.
\<close>

theorem boundary_faces_never_participate:
  assumes "vget face axis = 0 \<or> vget face axis = vget (faceGridSize I axis) axis - 1"
  shows "materialFaceLabels I axis face = AIR_FACE
       \<and> liquidFaceIndices I axis face = UNLABELLED_CELL
       \<and> (axis, face) \<notin> set (liquidFaces I)
       \<and> couple I i coefficient axis face st =
           (if inFaceGrid I axis face then Inr st else Inl (ReadOutsideGrid axis face))
       \<and> assembleFace I axis face S = Inr S
       \<and> (\<forall>out. ViscositySolver solver I = Inr out \<longrightarrow>
             velocityAfter out axis face = velocity I axis face)"
proof -
  have lab: "materialFaceLabels I axis face = AIR_FACE"
    using assms by (auto simp: materialFaceLabels_def classifyFace_def)
  then have nl: "\<not> isLiquid I (axis, face)" by (simp add: isLiquid_def)
  then have idx: "liquidFaceIndices I axis face = UNLABELLED_CELL"
    using faceIndex_eq [of I "(axis, face)"] by simp
  have c: "couple I i coefficient axis face st =
           (if inFaceGrid I axis face then Inr st else Inl (ReadOutsideGrid axis face))"
    by (cases st) (simp add: couple_def idx lab UNLABELLED_CELL_def)
  have a: "assembleFace I axis face S = Inr S"
    using assembleFace_other [of I "(axis, face)" S] by (simp add: idx UNLABELLED_CELL_def)
  have v: "velocityAfter out axis face = velocity I axis face"
    if "ViscositySolver solver I = Inr out" for out
    using that
    by (auto simp: ViscositySolver_def Let_def scatter_def idx UNLABELLED_CELL_def
        split: sum.splits if_splits)
  show ?thesis using lab idx nl c a v by (simp add: set_liquidFaces)
qed

theorem boundary_faces_never_participate_witness:
  "vget (0, 0, 0) 0 = 0
   \<and> vget (2, 1, 0) 0 = vget (faceGridSize exampleInputs 0) 0 - 1
   \<and> materialFaceLabels exampleInputs 0 (0, 0, 0) = AIR_FACE
   \<and> materialFaceLabels exampleInputs 0 (2, 1, 0) = AIR_FACE
   \<and> liquidFaceIndices exampleInputs 0 (2, 1, 0) = - 1
   \<and> inFaceGrid exampleInputs 0 (2, 1, 0)
   \<and> couple exampleInputs 0 1 0 (2, 1, 0) (6, exampleSystem) = Inr (6, exampleSystem)
   \<and> (\<exists>out. ViscositySolver constantSolver exampleInputs = Inr out
         \<and> velocityAfter out 0 (2, 1, 0) = 3)"
proof -
  have h: "vget (0, 0, 0) 0 = 0" "vget (2, 1, 0) 0 = vget (faceGridSize exampleInputs 0) 0 - 1"
    by (simp_all add: faceGridSize_def vinc_def exampleInputs_def)
  have g: "inFaceGrid exampleInputs 0 (2, 1, 0)"
    by (simp add: inFaceGrid_def faceGridSize_def vinc_def exampleInputs_def)
  have v: "velocity exampleInputs 0 (2, 1, 0) = 3" by (simp add: exampleInputs_def)
  show ?thesis
    using boundary_faces_never_participate [of "(0, 0, 0)" 0 exampleInputs]
      boundary_faces_never_participate
        [of "(2, 1, 0)" 0 exampleInputs 0 1 "(6, exampleSystem)" _ constantSolver] h
    by (simp add: UNLABELLED_CELL_def g v example_call del: One_nat_def)
qed

section \<open>The velocity at faces outside the liquid does not reach the result\<close>

lemma labels_velocity_update: "materialFaceLabels (I\<lparr>velocity := v\<rparr>) = materialFaceLabels I"
  by (simp add: fun_eq_iff materialFaceLabels_def classifyFace_def isFaceInSolve_def
      cellFlag_def edgeFlag_def faceGridSize_def)

lemma dofPass_velocity_update: "dofPass (I\<lparr>velocity := v\<rparr>) = dofPass I"
  by (rule dofPass_depends_on_labels) (simp_all add: labels_velocity_update)

lemma indices_velocity_update: "liquidFaceIndices (I\<lparr>velocity := v\<rparr>) = liquidFaceIndices I"
  by (simp add: fun_eq_iff liquidFaceIndices_def dofPass_velocity_update)

lemma count_velocity_update: "liquidDOFCount (I\<lparr>velocity := v\<rparr>) = liquidDOFCount I"
  by (simp add: liquidDOFCount_def dofPass_velocity_update)

lemma inFaceGrid_velocity_update: "inFaceGrid (I\<lparr>velocity := v\<rparr>) = inFaceGrid I"
  by (simp add: fun_eq_iff inFaceGrid_def faceGridSize_def)

lemma couple_velocity_update: "couple (I\<lparr>velocity := v\<rparr>) = couple I"
  by (simp add: fun_eq_iff couple_def indices_velocity_update labels_velocity_update
      inFaceGrid_velocity_update Let_def cong: if_cong)

lemma scaled_velocity_update:
  "scaledCenterVolumes (I\<lparr>velocity := v\<rparr>) = scaledCenterVolumes I"
  "scaledEdgeVolumes (I\<lparr>velocity := v\<rparr>) = scaledEdgeVolumes I"
  by (simp_all add: fun_eq_iff scaledCenterVolumes_def scaledEdgeVolumes_def discreteScalar_def)

lemma normalStress_velocity_update: "normalStress (I\<lparr>velocity := v\<rparr>) = normalStress I"
  by (simp add: fun_eq_iff normalStress_def couple_velocity_update scaled_velocity_update Let_def
      del: foldE.simps cong: if_cong)

lemma shearStress_velocity_update: "shearStress (I\<lparr>velocity := v\<rparr>) = shearStress I"
  by (simp add: fun_eq_iff shearStress_def couple_velocity_update scaled_velocity_update Let_def
      del: foldE.simps cong: if_cong)

lemma assembleFace_velocity_update:
  assumes "0 \<le> liquidFaceIndices I axis face \<Longrightarrow> v axis face = velocity I axis face"
  shows "assembleFace (I\<lparr>velocity := v\<rparr>) axis face S = assembleFace I axis face S"
  using assms
  by (simp add: assembleFace_def indices_velocity_update normalStress_velocity_update
      shearStress_velocity_update Let_def cong: sum.case_cong)

lemma assemble_velocity_update:
  assumes "\<And>axis face. 0 \<le> liquidFaceIndices I axis face \<Longrightarrow> v axis face = velocity I axis face"
  shows "assemble (I\<lparr>velocity := v\<rparr>) = assemble I"
proof -
  have "assembleFace (I\<lparr>velocity := v\<rparr>) = assembleFace I"
    by (intro ext) (simp add: assembleFace_velocity_update assms)
  then show ?thesis
    by (simp add: assemble_def emptySystem_def count_velocity_update faceGridSize_def
        del: foldE.simps)
qed

text \<open>
  Claim C10. Two calls whose arguments differ only in the velocity stored at faces that
  are not labelled LIQUID assemble the same system or stop at the same fault; when they
  return, they print the same diagnostics and return the same velocity at every LIQUID
  face: the assembly reads the velocity only at faces with a degree of freedom, and the
  labels and indices do not depend on the velocity.
\<close>

theorem liquid_result_ignores_other_velocities:
  assumes "\<And>axis face. materialFaceLabels I axis face = LIQUID_FACE \<Longrightarrow> v axis face = velocity I axis face"
  shows "assemble (I\<lparr>velocity := v\<rparr>) = assemble I
       \<and> materialFaceLabels (I\<lparr>velocity := v\<rparr>) = materialFaceLabels I
       \<and> liquidFaceIndices (I\<lparr>velocity := v\<rparr>) = liquidFaceIndices I
       \<and> (\<forall>f. ViscositySolver solver (I\<lparr>velocity := v\<rparr>) = Inl f
               \<longleftrightarrow> ViscositySolver solver I = Inl f)
       \<and> (\<forall>out' out.
            ViscositySolver solver (I\<lparr>velocity := v\<rparr>) = Inr out'
            \<and> ViscositySolver solver I = Inr out \<longrightarrow>
              printed out' = printed out
              \<and> (materialFaceLabels I axis face = LIQUID_FACE \<longrightarrow>
                   velocityAfter out' axis face = velocityAfter out axis face))"
proof -
  let ?I = "I\<lparr>velocity := v\<rparr>"
  have v: "v a f = velocity I a f" if "0 \<le> liquidFaceIndices I a f" for a f
    using that assms [of a f] faceIndex_nonneg_iff [of I "(a, f)"] by (simp add: isLiquid_def)
  have asm: "assemble ?I = assemble I"
    by (rule assemble_velocity_update) (rule v)
  have sc: "scatter ?I x axis face = scatter I x axis face"
    if "materialFaceLabels I axis face = LIQUID_FACE" for x
    using that assms [of axis face]
    by (simp add: scatter_def indices_velocity_update faceGridSize_def)
  have flt: "ViscositySolver solver ?I = Inl f \<longleftrightarrow> ViscositySolver solver I = Inl f" for f
    by (simp add: ViscositySolver_def asm count_velocity_update Let_def split: sum.splits)
  have out: "printed out' = printed out
         \<and> (materialFaceLabels I axis face = LIQUID_FACE \<longrightarrow>
              velocityAfter out' axis face = velocityAfter out axis face)"
    if "ViscositySolver solver ?I = Inr out'" "ViscositySolver solver I = Inr out" for out' out
  proof (cases "assemble I")
    case (Inl f)
    then show ?thesis using that by (simp add: ViscositySolver_def)
  next
    case (Inr S)
    show ?thesis
    proof (cases "materialFaceLabels I axis face = LIQUID_FACE")
      case True
      show ?thesis
        using that sc [OF True] assms [OF True] True
        by (auto simp: ViscositySolver_def asm Inr count_velocity_update Let_def
            split: if_splits)
    next
      case False
      show ?thesis
        using that False
        by (auto simp: ViscositySolver_def asm Inr count_velocity_update Let_def
            split: if_splits)
    qed
  qed
  show ?thesis
    using asm flt out by (simp add: labels_velocity_update indices_velocity_update)
qed

theorem liquid_result_ignores_other_velocities_witness:
  "velocity exampleInputs 1 (1, 1, 0) = 5
   \<and> materialFaceLabels exampleInputs 1 (1, 1, 0) = SOLID_FACE
   \<and> materialFaceLabels exampleInputs 0 (1, 0, 0) = LIQUID_FACE
   \<and> assemble (exampleInputs\<lparr>velocity := (\<lambda>axis face. if axis = 0 then 3 else if face = (0, 1, 0) then 5 else 11)\<rparr>)
       = Inr exampleSystem
   \<and> (\<exists>out. ViscositySolver constantSolver exampleInputs = Inr out
         \<and> velocityAfter out 0 (1, 0, 0) = 20)
   \<and> (\<exists>out'. ViscositySolver constantSolver
        (exampleInputs\<lparr>velocity := (\<lambda>axis face. if axis = 0 then 3 else if face = (0, 1, 0) then 5 else 11)\<rparr>)
         = Inr out' \<and> velocityAfter out' 0 (1, 0, 0) = 20)"
proof -
  let ?v = "\<lambda>(axis::nat) (face::Vec3i). if axis = 0 then 3 else if face = (0, 1, 0) then 5 else (11::real)"
  let ?call = "ViscositySolver constantSolver (exampleInputs\<lparr>velocity := ?v\<rparr>)"
  have h: "?v axis face = velocity exampleInputs axis face"
    if "materialFaceLabels exampleInputs axis face = LIQUID_FACE" for axis face
  proof -
    have "(axis, face) \<in> set (liquidFaces exampleInputs)"
      using that by (simp add: set_liquidFaces isLiquid_def)
    then show ?thesis
      unfolding example_liquidFaces by (auto simp: exampleInputs_def)
  qed
  have "inRange (faceGridSize exampleInputs 0) (1, 0, 0)"
    by (simp add: faceGridSize_def vinc_def exampleInputs_def)
  then have after: "scatter exampleInputs [20, - 8, 24] 0 (1, 0, 0) = 20"
    by (simp add: scatter_def example_indices)
  have vel: "velocity exampleInputs 1 (1, 1, 0) = 5" by (simp add: exampleInputs_def)
  note t = liquid_result_ignores_other_velocities
        [where I = exampleInputs and v = ?v and axis = 0 and face = "(1, 0, 0)"
           and solver = constantSolver, OF h]
  from t have "\<forall>f. ?call \<noteq> Inl f" by (simp add: example_call)
  then obtain out' where o: "?call = Inr out'" by (cases ?call) auto
  show ?thesis
    using t o by (simp add: example_labels example_assemble example_call after vel del: One_nat_def)
qed

section \<open>Claims about the assembly of one row\<close>

lemma filter_concat_rows:
  assumes "distinct xs" and "k \<in> set xs"
    and "\<And>x t. x \<in> set xs \<Longrightarrow> t \<in> set (f x) \<Longrightarrow> P t \<longleftrightarrow> x = k"
  shows "filter P (concat (map f xs)) = f k"
  using assms
proof (induction xs)
  case Nil
  then show ?case by simp
next
  case (Cons x xs)
  show ?case
  proof (cases "x = k")
    case True
    then have "k \<notin> set xs" using Cons.prems(1) by simp
    then have "\<forall>y \<in> set xs. \<forall>t \<in> set (f y). \<not> P t"
      using Cons.prems(3) by (metis list.set_intros(2))
    then have rest: "filter P (concat (map f xs)) = []"
      by (simp add: filter_empty_conv)
    have "\<forall>t \<in> set (f k). P t" using Cons.prems(3) [of k] True by simp
    then have "filter P (f k) = f k" by (simp add: filter_id_conv)
    then show ?thesis using True rest by simp
  next
    case False
    then have "\<forall>t \<in> set (f x). \<not> P t" using Cons.prems(3) [of x] by simp
    then have hd: "filter P (f x) = []" by (simp add: filter_empty_conv)
    have "filter P (concat (map f xs)) = f k"
    proof (rule Cons.IH)
      show "distinct xs" using Cons.prems(1) by simp
      show "k \<in> set xs" using Cons.prems(2) False by simp
      show "P t \<longleftrightarrow> y = k" if "y \<in> set xs" "t \<in> set (f y)" for y t
        using Cons.prems(3) [of y t] that by simp
    qed
    then show ?thesis using hd by simp
  qed
qed

lemma rowTriplets_fst: "t \<in> set (rowTriplets I k) \<Longrightarrow> fst t = faceIndex I k"
  by (auto simp: rowTriplets_def offDiagonal_def)

lemma rows_closed:
  "sparseElements (systemByRows I) = concat (map (rowTriplets I) (liquidFaces I))"
  "rhsVector (systemByRows I) = map (rowRhs I) (liquidFaces I)"
  "initialGuessVector (systemByRows I) = map (faceVelocity I) (liquidFaces I)"
  by (simp_all add: systemByRows_def)

lemma row_of_face:
  assumes "isLiquid I k"
  shows "filter (\<lambda>t. fst t = faceIndex I k) (sparseElements (systemByRows I)) = rowTriplets I k"
  unfolding rows_closed
proof (rule filter_concat_rows)
  show "distinct (liquidFaces I)" by (rule distinct_liquidFaces)
  show "k \<in> set (liquidFaces I)" using assms by (simp add: set_liquidFaces)
  show "fst t = faceIndex I k \<longleftrightarrow> x = k"
    if "x \<in> set (liquidFaces I)" "t \<in> set (rowTriplets I x)" for x t
    using that assms faceIndex_inj [of I x k] rowTriplets_fst [of t I x]
    by (auto simp: set_liquidFaces)
qed

lemma entry_label_cases:
  "isLiquid I k \<Longrightarrow>
   (faceIndex I k' = faceIndex I k \<longleftrightarrow> k' = k)
   \<and> (0 \<le> faceIndex I k' \<and> faceIndex I k' \<noteq> faceIndex I k
        \<longleftrightarrow> materialFaceLabels I (fst k') (snd k') = LIQUID_FACE \<and> k' \<noteq> k)
   \<and> (materialFaceLabels I (fst k') (snd k') = SOLID_FACE \<and> \<not> 0 \<le> faceIndex I k'
        \<longleftrightarrow> materialFaceLabels I (fst k') (snd k') = SOLID_FACE)"
  using faceIndex_inj [of I k' k] faceIndex_nonneg_iff [of I k'] faceIndex_nonneg_iff [of I k]
  by (auto simp: isLiquid_def)

lemma solidPart_by_label:
  "solidPart I (stencil I axis face) =
     (\<Sum>e\<leftarrow>solidNeighbours I axis face. fst e * solidVelocity I (fst (snd e)) (snd (snd e)))"
proof -
  have "(materialFaceLabels I (fst (snd e)) (snd (snd e)) = SOLID_FACE
          \<and> \<not> 0 \<le> liquidFaceIndices I (fst (snd e)) (snd (snd e)))
        = (materialFaceLabels I (fst (snd e)) (snd (snd e)) = SOLID_FACE)" for e :: stencil_entry
    using faceIndex_nonneg_iff [of I "snd e"] by (auto simp: isLiquid_def)
  then show ?thesis
    by (simp add: solidPart_def solidNeighbours_def sum_list_map_filter')
qed

lemma diagonalPart_by_label:
  assumes "isLiquid I (axis, face)"
  shows "diagonalPart I (liquidFaceIndices I axis face) (stencil I axis face) =
     (\<Sum>e\<leftarrow>selfEntries I axis face. fst e)"
proof -
  have "(liquidFaceIndices I (fst (snd e)) (snd (snd e)) = liquidFaceIndices I axis face)
        = (snd e = (axis, face))" for e :: stencil_entry
    using entry_label_cases [OF assms, of "snd e"] by simp
  then show ?thesis
    by (simp add: diagonalPart_def selfEntries_def sum_list_map_filter')
qed

lemma offDiagonal_by_label:
  assumes "isLiquid I (axis, face)"
  shows "offDiagonal I (liquidFaceIndices I axis face) (stencil I axis face) =
     map (\<lambda>e. (liquidFaceIndices I axis face, liquidFaceIndices I (fst (snd e)) (snd (snd e)), - fst e))
       (liquidNeighbours I axis face)"
proof -
  have "(0 \<le> liquidFaceIndices I (fst (snd e)) (snd (snd e))
         \<and> liquidFaceIndices I (fst (snd e)) (snd (snd e)) \<noteq> liquidFaceIndices I axis face)
        = (materialFaceLabels I (fst (snd e)) (snd (snd e)) = LIQUID_FACE \<and> snd e \<noteq> (axis, face))"
    for e :: stencil_entry
    using entry_label_cases [OF assms, of "snd e"] by auto
  then show ?thesis
    by (simp add: offDiagonal_def liquidNeighbours_def)
qed

lemma couple_by_label:
  assumes "isLiquid I (axis, face)"
  shows "couple I (liquidFaceIndices I axis face) c a g (d, S) =
     (if \<not> inFaceGrid I a g then Inl (ReadOutsideGrid a g)
      else if materialFaceLabels I a g = LIQUID_FACE then
        (if (a, g) = (axis, face) then Inr (d - c, S)
         else Inr (d, S\<lparr>sparseElements := sparseElements S
                    @ [(liquidFaceIndices I axis face, liquidFaceIndices I a g, - c)]\<rparr>))
      else if materialFaceLabels I a g = SOLID_FACE then
        Inr (d, S\<lparr>rhsVector := (rhsVector S)[nat (liquidFaceIndices I axis face) :=
                 rhsVector S ! nat (liquidFaceIndices I axis face) + c * solidVelocity I a g]\<rparr>)
      else Inr (d, S))"
  using entry_label_cases [OF assms, of "(a, g)"] faceIndex_nonneg_iff [of I "(a, g)"]
  by (auto simp: couple_def Let_def isLiquid_def)

text \<open>
  Claim C7. For a face labelled LIQUID with index \<open>i\<close>: the index lies in the range of
  the degrees of freedom; the loop body starts the right-hand side at \<open>i\<close> and the
  diagonal with the face volume times the velocity and the face volume, hands every
  stencil neighbour to the dispatch, stops at the first neighbour outside the grid, and
  otherwise commits the diagonal last; the dispatch, for a neighbour in the grid, adds the
  coefficient times the solid velocity to the right-hand side for a SOLID neighbour,
  nothing for an AIR neighbour, and for a LIQUID neighbour either subtracts the
  coefficient from the diagonal (the neighbour is the face itself) or records the negated
  coefficient off the diagonal. Hence, when the assembly returns a system: every
  neighbour in the stencil of the face lies in the grid; the vectors have one entry for
  each degree of freedom; the guess at \<open>i\<close> is the velocity at the face; the right-hand
  side at \<open>i\<close> is the face volume times the velocity plus the contributions of the SOLID
  neighbours; and row \<open>i\<close> of the triplets is one entry for each other LIQUID neighbour
  and the diagonal entry.
\<close>

theorem assembly_of_liquid_face:
  assumes "materialFaceLabels I axis face = LIQUID_FACE"
  shows "0 \<le> liquidFaceIndices I axis face \<and> liquidFaceIndices I axis face < liquidDOFCount I
    \<and> (assemble I = Inr A \<longrightarrow>
         list_all (entryInGrid I) (stencil I axis face)
         \<and> length (initialGuessVector A) = nat (liquidDOFCount I)
         \<and> length (rhsVector A) = nat (liquidDOFCount I)
         \<and> initialGuessVector A ! nat (liquidFaceIndices I axis face) = velocity I axis face
         \<and> rhsVector A ! nat (liquidFaceIndices I axis face)
             = faceVolumes I axis face * velocity I axis face
               + (\<Sum>e\<leftarrow>solidNeighbours I axis face. fst e * solidVelocity I (fst (snd e)) (snd (snd e)))
         \<and> filter (\<lambda>t. fst t = liquidFaceIndices I axis face) (sparseElements A)
             = map (\<lambda>e. (liquidFaceIndices I axis face,
                          liquidFaceIndices I (fst (snd e)) (snd (snd e)), - fst e))
                 (liquidNeighbours I axis face)
               @ [(liquidFaceIndices I axis face, liquidFaceIndices I axis face,
                   faceVolumes I axis face - (\<Sum>e\<leftarrow>selfEntries I axis face. fst e))])
    \<and> assembleFace I axis face S =
        (let i = liquidFaceIndices I axis face
         in case foldE (coupleEntry I i) (stencil I axis face)
                   (faceVolumes I axis face,
                    S\<lparr>initialGuessVector := (initialGuessVector S)[nat i := velocity I axis face],
                      rhsVector := (rhsVector S)[nat i := faceVolumes I axis face * velocity I axis face]\<rparr>) of
              Inl f \<Rightarrow> Inl f
            | Inr st \<Rightarrow> Inr ((snd st)\<lparr>sparseElements := sparseElements (snd st) @ [(i, i, fst st)]\<rparr>))
    \<and> couple I (liquidFaceIndices I axis face) c a g (d, S) =
        (if \<not> inFaceGrid I a g then Inl (ReadOutsideGrid a g)
         else if materialFaceLabels I a g = LIQUID_FACE then
           (if (a, g) = (axis, face) then Inr (d - c, S)
            else Inr (d, S\<lparr>sparseElements := sparseElements S
                       @ [(liquidFaceIndices I axis face, liquidFaceIndices I a g, - c)]\<rparr>))
         else if materialFaceLabels I a g = SOLID_FACE then
           Inr (d, S\<lparr>rhsVector := (rhsVector S)[nat (liquidFaceIndices I axis face) :=
                    rhsVector S ! nat (liquidFaceIndices I axis face) + c * solidVelocity I a g]\<rparr>)
         else Inr (d, S))"
proof -
  let ?k = "(axis, face)"
  let ?L = "liquidFaces I"
  have liq: "isLiquid I ?k" using assms by (simp add: isLiquid_def)
  have i: "0 \<le> liquidFaceIndices I axis face" "liquidFaceIndices I axis face < liquidDOFCount I"
    using liq faceIndex_nonneg_iff [of I ?k] faceIndex_less [of I ?k] by simp_all
  have p: "nat (liquidFaceIndices I axis face) < length ?L"
    "?L ! nat (liquidFaceIndices I axis face) = ?k"
    using liq nat_faceIndex [of I ?k] indexOf_less [of ?k ?L] nth_indexOf [of ?k ?L]
    by (simp_all add: set_liquidFaces)
  have sys: "list_all (entryInGrid I) (stencil I axis face)
         \<and> length (initialGuessVector A) = nat (liquidDOFCount I)
         \<and> length (rhsVector A) = nat (liquidDOFCount I)
         \<and> initialGuessVector A ! nat (liquidFaceIndices I axis face) = velocity I axis face
         \<and> rhsVector A ! nat (liquidFaceIndices I axis face)
             = faceVolumes I axis face * velocity I axis face
               + (\<Sum>e\<leftarrow>solidNeighbours I axis face. fst e * solidVelocity I (fst (snd e)) (snd (snd e)))
         \<and> filter (\<lambda>t. fst t = liquidFaceIndices I axis face) (sparseElements A)
             = map (\<lambda>e. (liquidFaceIndices I axis face,
                          liquidFaceIndices I (fst (snd e)) (snd (snd e)), - fst e))
                 (liquidNeighbours I axis face)
               @ [(liquidFaceIndices I axis face, liquidFaceIndices I axis face,
                   faceVolumes I axis face - (\<Sum>e\<leftarrow>selfEntries I axis face. fst e))]"
    if run: "assemble I = Inr A"
  proof -
    have A: "A = systemByRows I" and reads: "readsInGrid I"
      using run by (simp_all add: assemble_Inr_iff)
    have "stencilInGrid I ?k"
      using reads liq by (rule readsInGrid_liquid)
    then have grid: "list_all (entryInGrid I) (stencil I axis face)"
      by (simp add: stencilInGrid_def)
    have len: "length (initialGuessVector A) = nat (liquidDOFCount I)"
      "length (rhsVector A) = nat (liquidDOFCount I)"
      by (simp_all add: A rows_closed liquidDOFCount_eq)
    have x0: "initialGuessVector A ! nat (liquidFaceIndices I axis face) = velocity I axis face"
      using p by (simp add: A rows_closed)
    have b: "rhsVector A ! nat (liquidFaceIndices I axis face)
          = faceVolumes I axis face * velocity I axis face
            + (\<Sum>e\<leftarrow>solidNeighbours I axis face. fst e * solidVelocity I (fst (snd e)) (snd (snd e)))"
      using p by (simp add: A rows_closed rowRhs_def solidPart_by_label)
    have row: "filter (\<lambda>t. fst t = liquidFaceIndices I axis face) (sparseElements A)
          = map (\<lambda>e. (liquidFaceIndices I axis face,
                       liquidFaceIndices I (fst (snd e)) (snd (snd e)), - fst e))
              (liquidNeighbours I axis face)
            @ [(liquidFaceIndices I axis face, liquidFaceIndices I axis face,
                faceVolumes I axis face - (\<Sum>e\<leftarrow>selfEntries I axis face. fst e))]"
      using row_of_face [OF liq] offDiagonal_by_label [OF liq] diagonalPart_by_label [OF liq]
      by (simp add: A rowTriplets_def rowDiagonal_def)
    show ?thesis using grid len x0 b row by blast
  qed
  have body: "assembleFace I axis face S =
        (let i = liquidFaceIndices I axis face
         in case foldE (coupleEntry I i) (stencil I axis face)
                   (faceVolumes I axis face,
                    S\<lparr>initialGuessVector := (initialGuessVector S)[nat i := velocity I axis face],
                      rhsVector := (rhsVector S)[nat i := faceVolumes I axis face * velocity I axis face]\<rparr>) of
              Inl f \<Rightarrow> Inl f
            | Inr st \<Rightarrow> Inr ((snd st)\<lparr>sparseElements := sparseElements (snd st) @ [(i, i, fst st)]\<rparr>))"
    using i(1) by (simp add: assembleFace_stencil [of I axis face S] Let_def)
  show ?thesis
    using i sys body couple_by_label [OF liq, of c a g d S] by blast
qed

lemma example_neighbours:
  "solidNeighbours exampleInputs 0 (1, 0, 0) = [(1, 1, (1, 1, 0))]"
  "liquidNeighbours exampleInputs 0 (1, 0, 0) = [(- 1, 1, (0, 1, 0)), (1, 0, (1, 1, 0))]"
  "selfEntries exampleInputs 0 (1, 0, 0) = [(- 2, 0, (1, 0, 0)), (- 2, 0, (1, 0, 0)), (- 1, 0, (1, 0, 0))]"
  by code_simp+

lemma example_stencil_in_grid:
  "list_all (entryInGrid exampleInputs) (stencil exampleInputs 0 (1, 0, 0))"
  by code_simp

theorem assembly_of_liquid_face_witness:
  "materialFaceLabels exampleInputs 0 (1, 0, 0) = LIQUID_FACE
   \<and> assemble exampleInputs = Inr exampleSystem
   \<and> liquidFaceIndices exampleInputs 0 (1, 0, 0) = 0
   \<and> velocity exampleInputs 0 (1, 0, 0) = 3
   \<and> faceVolumes exampleInputs 0 (1, 0, 0) = 1
   \<and> solidVelocity exampleInputs 1 (1, 1, 0) = 7
   \<and> list_all (entryInGrid exampleInputs) (stencil exampleInputs 0 (1, 0, 0))
   \<and> initialGuessVector exampleSystem ! 0 = 3
   \<and> rhsVector exampleSystem ! 0 = 1 * 3 + 1 * 7
   \<and> filter (\<lambda>t. fst t = 0) (sparseElements exampleSystem)
       = [(0, 2, 1), (0, 1, - 1), (0, 0, 1 - (- 2 + (- 2) + (- 1)))]"
proof -
  have v: "velocity exampleInputs 0 (1, 0, 0) = 3" "faceVolumes exampleInputs 0 (1, 0, 0) = 1"
    "solidVelocity exampleInputs 1 (1, 1, 0) = 7"
    by (simp_all add: exampleInputs_def)
  show ?thesis
    using assembly_of_liquid_face [of exampleInputs 0 "(1, 0, 0)" exampleSystem]
    by (simp add: example_labels example_indices example_neighbours example_assemble v
        del: One_nat_def)
qed


section \<open>The geometry of the stencil\<close>

lemma shearStencil_blocks:
  "shearStencil I a f =
     concat (map (\<lambda>ea. if ea = a then [] else edgeBlock I a f ea 0 @ edgeBlock I a f ea 1) [0, 1, 2])"
  by (simp add: shearStencil_def edgeBlock_def)

lemma vinc_vdec [simp]: "vinc (vdec f a) a = f" "vdec (vinc f a) a = f"
  by (cases f; simp add: vinc_def vdec_def)+

lemma set_normalStencil:
  "set (normalStencil I a f) =
     (if scaledCenterVolumes I (vdec f a) > 0
      then {(scaledCenterVolumes I (vdec f a), a, vdec f a),
            (- scaledCenterVolumes I (vdec f a), a, f)} else {})
     \<union> (if scaledCenterVolumes I f > 0
        then {(- scaledCenterVolumes I f, a, f), (scaledCenterVolumes I f, a, vinc f a)} else {})"
  by (auto simp: normalStencil_def Let_def faceToCell_def cellToFace_def directionSign_def)

lemma normalStencil_mirror:
  "(c, ga, g) \<in> set (normalStencil I a f) \<Longrightarrow> (c, a, f) \<in> set (normalStencil I ga g)"
  by (auto simp: set_normalStencil split: if_splits)

lemma normalStencil_axis: "(c, ga, g) \<in> set (normalStencil I a f) \<Longrightarrow> ga = a"
  by (auto simp: set_normalStencil split: if_splits)

lemma axis_pairs:
  assumes "a < 3" "ea < 3" "ea \<noteq> a"
  shows "(a = 0 \<and> ea = 1) \<or> (a = 0 \<and> ea = 2) \<or> (a = 1 \<and> ea = 0) \<or> (a = 1 \<and> ea = 2)
         \<or> (a = 2 \<and> ea = 0) \<or> (a = 2 \<and> ea = (1::nat))"
proof -
  have "a = 0 \<or> a = 1 \<or> a = 2" "ea = 0 \<or> ea = 1 \<or> ea = 2"
    using assms(1,2) by (simp_all add: axis_cases)
  then show ?thesis using assms(3) by blast
qed

lemma third_axis:
  assumes "(a::nat) < 3" "(ea::nat) < 3" "ea \<noteq> a"
  shows "3 - a - ea < 3" "3 - a - ea \<noteq> a" "3 - a - ea \<noteq> ea" "3 - (3 - a - ea) - ea = a"
  using assms by arith+

lemma in_shearStencil:
  "x \<in> set (shearStencil I a f) \<longleftrightarrow>
     (\<exists>ea dd. ea < 3 \<and> ea \<noteq> a \<and> dd < 2 \<and> x \<in> set (edgeBlock I a f ea dd))"
proof -
  have 1: "x \<in> set (shearStencil I a f) \<longleftrightarrow>
     (\<exists>ea \<in> {0, 1, 2}. ea \<noteq> a \<and> (\<exists>dd \<in> {0, 1}. x \<in> set (edgeBlock I a f ea dd)))"
    by (simp add: shearStencil_blocks)
  have 2: "{0, 1, 2} = {ea::nat. ea < 3}" "{0, 1} = {dd::nat. dd < 2}" by auto
  show ?thesis unfolding 1 2 by blast
qed

lemma set_edgeBlock:
  assumes "a < 3" "ea < 3" "ea \<noteq> a"
  shows "set (edgeBlock I a f ea dd) =
     (if scaledEdgeVolumes I ea (faceToEdge f a ea dd) > 0
      then {(- directionSign dd * scaledEdgeVolumes I ea (faceToEdge f a ea dd),
               3 - a - ea, vdec (faceToEdge f a ea dd) a),
            (directionSign dd * scaledEdgeVolumes I ea (faceToEdge f a ea dd),
               3 - a - ea, faceToEdge f a ea dd),
            (- directionSign dd * scaledEdgeVolumes I ea (faceToEdge f a ea dd),
               a, vdec (faceToEdge f a ea dd) (3 - a - ea)),
            (directionSign dd * scaledEdgeVolumes I ea (faceToEdge f a ea dd),
               a, faceToEdge f a ea dd)}
      else {})"
  using axis_pairs [OF assms]
proof -
  have "set (edgeBlock I a f ea dd) =
     (if scaledEdgeVolumes I ea (faceToEdge f a ea dd) > 0
      then {(- directionSign dd * scaledEdgeVolumes I ea (faceToEdge f a ea dd),
               3 - a - ea, vdec (faceToEdge f a ea dd) a),
            (directionSign dd * scaledEdgeVolumes I ea (faceToEdge f a ea dd),
               3 - a - ea, faceToEdge f a ea dd),
            (- directionSign dd * scaledEdgeVolumes I ea (faceToEdge f a ea dd),
               a, vdec (faceToEdge f a ea dd) (3 - a - ea)),
            (directionSign dd * scaledEdgeVolumes I ea (faceToEdge f a ea dd),
               a, faceToEdge f a ea dd)}
      else {})"
    if "(a = 0 \<and> ea = 1) \<or> (a = 0 \<and> ea = 2) \<or> (a = 1 \<and> ea = 0) \<or> (a = 1 \<and> ea = 2)
         \<or> (a = 2 \<and> ea = 0) \<or> (a = 2 \<and> ea = (1::nat))"
    using that
    by (elim disjE conjE)
      (auto simp: edgeBlock_def Let_def edgeToFace_def directionSign_def)
  then show ?thesis using axis_pairs [OF assms] by blast
qed

lemma in_shearStencilI:
  "ea < 3 \<Longrightarrow> ea \<noteq> a \<Longrightarrow> dd < 2 \<Longrightarrow> x \<in> set (edgeBlock I a f ea dd) \<Longrightarrow>
   x \<in> set (shearStencil I a f)"
  using in_shearStencil by blast

lemma shearStencil_mirror:
  assumes a: "a < 3" and mem: "(c, ga, g) \<in> set (shearStencil I a f)"
  shows "(c, a, f) \<in> set (shearStencil I ga g) \<and> ga < 3"
proof -
  obtain ea dd where ea: "ea < 3" "ea \<noteq> a" and dd: "dd < 2"
    and blk: "(c, ga, g) \<in> set (edgeBlock I a f ea dd)"
    using mem in_shearStencil by blast
  define oa where "oa = 3 - a - ea"
  have oa: "oa < 3" "oa \<noteq> a" "ea \<noteq> oa" "3 - oa - ea = a"
    using third_axis [OF a ea] unfolding oa_def by auto
  have fe: "faceToEdge x a ea 0 = x" "faceToEdge x a ea 1 = vinc x oa"
    "faceToEdge x oa ea 0 = x" "faceToEdge x oa ea 1 = vinc x a" for x
    using oa(4) by (simp_all add: faceToEdge_def oa_def)
  define e where "e = faceToEdge f a ea dd"
  define v where "v = scaledEdgeVolumes I ea e"
  have "dd = 0 \<or> dd = 1" using dd by arith
  then have dd_cases: "(dd = 0 \<and> e = f) \<or> (dd = 1 \<and> f = vdec e oa)"
    using fe(1,2) [of f] by (auto simp: e_def)
  have el: "v > 0 \<and> (c, ga, g) \<in> {(- directionSign dd * v, oa, vdec e a), (directionSign dd * v, oa, e),
      (- directionSign dd * v, a, vdec e oa), (directionSign dd * v, a, e)}"
    using blk set_edgeBlock [OF a ea, of I f dd, folded oa_def e_def, folded v_def]
    by (auto split: if_splits)
  then have pos: "v > 0" by simp
  have t_o1: "set (edgeBlock I oa (vdec e a) ea 1) = {(- v, a, vdec e oa), (v, a, e), (- v, oa, vdec e a), (v, oa, e)}"
    using set_edgeBlock [OF oa(1) ea(1) oa(3), of I "vdec e a" 1] pos
    unfolding oa(4) fe by (simp add: directionSign_def v_def)
  have t_o0: "set (edgeBlock I oa e ea 0) = {(v, a, vdec e oa), (- v, a, e), (v, oa, vdec e a), (- v, oa, e)}"
    using set_edgeBlock [OF oa(1) ea(1) oa(3), of I e 0] pos
    unfolding oa(4) fe by (simp add: directionSign_def v_def)
  have t_a1: "set (edgeBlock I a (vdec e oa) ea 1) = {(- v, oa, vdec e a), (v, oa, e), (- v, a, vdec e oa), (v, a, e)}"
    using set_edgeBlock [OF a ea, of I "vdec e oa" 1, folded oa_def] pos
    unfolding fe by (simp add: directionSign_def v_def)
  have t_a0: "set (edgeBlock I a e ea 0) = {(v, oa, vdec e a), (- v, oa, e), (v, a, vdec e oa), (- v, a, e)}"
    using set_edgeBlock [OF a ea, of I e 0, folded oa_def] pos
    unfolding fe by (simp add: directionSign_def v_def)
  from el consider
      (1) "c = - directionSign dd * v" "ga = oa" "g = vdec e a"
    | (2) "c = directionSign dd * v" "ga = oa" "g = e"
    | (3) "c = - directionSign dd * v" "ga = a" "g = vdec e oa"
    | (4) "c = directionSign dd * v" "ga = a" "g = e"
    by auto
  then show ?thesis
  proof cases
    case 1
    have "(c, a, f) \<in> set (edgeBlock I oa (vdec e a) ea 1)"
      unfolding t_o1 using 1 dd_cases by (auto simp: directionSign_def)
    then have "(c, a, f) \<in> set (shearStencil I oa (vdec e a))"
      by (rule in_shearStencilI [OF ea(1) oa(3), rotated]) simp
    then show ?thesis using 1 oa(1) by simp
  next
    case 2
    have "(c, a, f) \<in> set (edgeBlock I oa e ea 0)"
      unfolding t_o0 using 2 dd_cases by (auto simp: directionSign_def)
    then have "(c, a, f) \<in> set (shearStencil I oa e)"
      by (rule in_shearStencilI [OF ea(1) oa(3), rotated]) simp
    then show ?thesis using 2 oa(1) by simp
  next
    case 3
    have "(c, a, f) \<in> set (edgeBlock I a (vdec e oa) ea 1)"
      unfolding t_a1 using 3 dd_cases by (auto simp: directionSign_def)
    then have "(c, a, f) \<in> set (shearStencil I a (vdec e oa))"
      by (rule in_shearStencilI [OF ea, rotated]) simp
    then show ?thesis using 3 a by simp
  next
    case 4
    have "(c, a, f) \<in> set (edgeBlock I a e ea 0)"
      unfolding t_a0 using 4 dd_cases by (auto simp: directionSign_def)
    then have "(c, a, f) \<in> set (shearStencil I a e)"
      by (rule in_shearStencilI [OF ea, rotated]) simp
    then show ?thesis using 4 a by simp
  qed
qed

lemma stencil_mirror:
  assumes "a < 3" and "(c, ga, g) \<in> set (stencil I a f)"
  shows "(c, a, f) \<in> set (stencil I ga g) \<and> ga < 3"
  using assms normalStencil_mirror [of c ga g I a f] normalStencil_axis [of c ga g I a f]
    shearStencil_mirror [of a c ga g I f]
  by (auto simp: stencil_def)

lemma vinc_simps:
  "vinc (x, y, z) 0 = (x + 1, y, z)" "vinc (x, y, z) (Suc 0) = (x, y + 1, z)"
  "vinc (x, y, z) 2 = (x, y, z + 1)"
  "vdec (x, y, z) 0 = (x - 1, y, z)" "vdec (x, y, z) (Suc 0) = (x, y - 1, z)"
  "vdec (x, y, z) 2 = (x, y, z - 1)"
  by (simp_all add: vinc_def vdec_def)

lemma distinct_keys_append:
  assumes "distinct (map snd (filter (\<lambda>e. snd e \<noteq> k) xs))"
    and "distinct (map snd (filter (\<lambda>e. snd e \<noteq> k) ys))"
    and "snd ` set xs \<subseteq> A" and "snd ` set ys \<subseteq> B"
    and "(A - {k}) \<inter> (B - {k}) = {}"
  shows "distinct (map snd (filter (\<lambda>e. snd e \<noteq> k) (xs @ ys)))"
    and "snd ` set (xs @ ys) \<subseteq> A \<union> B"
  using assms by (auto simp: image_iff)

lemma stencil_parts:
  assumes "a < 3"
  shows "\<exists>ea1 ea2. ea1 < 3 \<and> ea2 < 3 \<and> ea1 \<noteq> a \<and> ea2 \<noteq> a \<and> ea1 \<noteq> ea2
     \<and> stencil I a f = (((normalStencil I a f @ edgeBlock I a f ea1 0) @ edgeBlock I a f ea1 1)
                         @ edgeBlock I a f ea2 0) @ edgeBlock I a f ea2 1"
proof -
  from assms consider "a = 0" | "a = 1" | "a = 2" by arith
  then show ?thesis
  proof cases
    case 1
    then have "stencil I a f = (((normalStencil I a f @ edgeBlock I a f 1 0) @ edgeBlock I a f 1 1)
                         @ edgeBlock I a f 2 0) @ edgeBlock I a f 2 1"
      by (simp add: stencil_def shearStencil_blocks)
    then show ?thesis using 1 by (intro exI [of _ 1] exI [of _ 2]) simp
  next
    case 2
    then have "stencil I a f = (((normalStencil I a f @ edgeBlock I a f 0 0) @ edgeBlock I a f 0 1)
                         @ edgeBlock I a f 2 0) @ edgeBlock I a f 2 1"
      by (simp add: stencil_def shearStencil_blocks)
    then show ?thesis using 2 by (intro exI [of _ 0] exI [of _ 2]) simp
  next
    case 3
    then have "stencil I a f = (((normalStencil I a f @ edgeBlock I a f 0 0) @ edgeBlock I a f 0 1)
                         @ edgeBlock I a f 1 0) @ edgeBlock I a f 1 1"
      by (simp add: stencil_def shearStencil_blocks)
    then show ?thesis using 3 by (intro exI [of _ 0] exI [of _ 1]) simp
  qed
qed

lemma vdec_neq_vinc: "vdec f a \<noteq> vinc f a"
  by (cases f) (simp add: vinc_def vdec_def)

lemma vdec_neq: "vdec f a \<noteq> f"
  by (cases f) (simp add: vdec_def)

lemma distinct_normal_keys:
  "distinct (map snd (filter (\<lambda>e. snd e \<noteq> (a, f)) (normalStencil I a f)))"
  using vdec_neq_vinc [of f a] vdec_neq [of f a]
  by (auto simp: normalStencil_def Let_def faceToCell_def cellToFace_def)

lemma keys_normal: "snd ` set (normalStencil I a f) \<subseteq> {(a, vdec f a), (a, f), (a, vinc f a)}"
  by (auto simp: set_normalStencil split: if_splits)

lemma keys_edgeBlock:
  assumes "a < 3" "ea < 3" "ea \<noteq> a"
  shows "snd ` set (edgeBlock I a f ea dd) \<subseteq>
     {(3 - a - ea, vdec (faceToEdge f a ea dd) a), (3 - a - ea, faceToEdge f a ea dd),
      (a, vdec (faceToEdge f a ea dd) (3 - a - ea)), (a, faceToEdge f a ea dd)}"
  unfolding set_edgeBlock [OF assms] by auto

lemma distinct_edgeBlock_keys:
  assumes "a < 3" "ea < 3" "ea \<noteq> a"
  shows "distinct (map snd (edgeBlock I a f ea dd))"
proof -
  have "distinct (map snd (edgeBlock I a f ea dd))"
    if "(a = 0 \<and> ea = 1) \<or> (a = 0 \<and> ea = 2) \<or> (a = 1 \<and> ea = 0) \<or> (a = 1 \<and> ea = 2)
         \<or> (a = 2 \<and> ea = 0) \<or> (a = 2 \<and> ea = (1::nat))"
    using that
    by (elim disjE conjE) (simp_all add: edgeBlock_def Let_def edgeToFace_def vdec_neq)
  then show ?thesis using axis_pairs [OF assms] by blast
qed

lemma axis_triples:
  assumes "a < 3" "ea1 < 3" "ea2 < 3" "ea1 \<noteq> a" "ea2 \<noteq> a" "ea1 \<noteq> ea2"
  shows "(a = 0 \<and> ea1 = 1 \<and> ea2 = 2) \<or> (a = 0 \<and> ea1 = 2 \<and> ea2 = 1)
       \<or> (a = 1 \<and> ea1 = 0 \<and> ea2 = 2) \<or> (a = 1 \<and> ea1 = 2 \<and> ea2 = 0)
       \<or> (a = 2 \<and> ea1 = 0 \<and> ea2 = 1) \<or> (a = 2 \<and> ea1 = 1 \<and> ea2 = (0::nat))"
proof -
  have "a = 0 \<or> a = 1 \<or> a = 2" "ea1 = 0 \<or> ea1 = 1 \<or> ea1 = 2" "ea2 = 0 \<or> ea2 = 1 \<or> ea2 = 2"
    using assms(1-3) by (simp_all add: axis_cases)
  then show ?thesis using assms(4-6) by blast
qed

lemma distinct_keys_append':
  assumes "distinct (map snd (filter (\<lambda>e. snd e \<noteq> k) xs))"
    and "distinct (map snd (filter (\<lambda>e. snd e \<noteq> k) ys))"
    and "snd ` set xs \<subseteq> set LA" and "snd ` set ys \<subseteq> set LB"
    and "distinct (filter (\<lambda>x. x \<noteq> k) (LA @ LB))"
  shows "distinct (map snd (filter (\<lambda>e. snd e \<noteq> k) (xs @ ys)))"
    and "snd ` set (xs @ ys) \<subseteq> set (LA @ LB)"
proof -
  have "(set LA - {k}) \<inter> (set LB - {k}) = {}"
    using assms(5) by auto
  then show "distinct (map snd (filter (\<lambda>e. snd e \<noteq> k) (xs @ ys)))"
    using distinct_keys_append(1) [OF assms(1) assms(2) assms(3) assms(4)] by blast
  show "snd ` set (xs @ ys) \<subseteq> set (LA @ LB)"
    using assms(3,4) by auto
qed

lemma all_keys_distinct:
  assumes "a < 3" "ea1 < 3" "ea2 < 3" "ea1 \<noteq> a" "ea2 \<noteq> a" "ea1 \<noteq> ea2"
  shows "distinct (filter (\<lambda>x. x \<noteq> (a, f))
     ((((normalKeys a f @ blockKeys a f ea1 0) @ blockKeys a f ea1 1) @ blockKeys a f ea2 0)
       @ blockKeys a f ea2 1))"
proof -
  obtain x y z where f: "f = (x, y, z)" by (cases f)
  show ?thesis
    using axis_triples [OF assms] unfolding f
    by (elim disjE conjE) (simp_all add: normalKeys_def blockKeys_def faceToEdge_def vinc_simps)
qed

lemma distinct_filter_prefix: "distinct (filter P (xs @ ys)) \<Longrightarrow> distinct (filter P xs)"
  by simp

lemma stencil_distinct:
  assumes a: "a < 3"
  shows "distinct (map snd (filter (\<lambda>e. snd e \<noteq> (a, f)) (stencil I a f)))"
proof -
  obtain ea1 ea2 where ea: "ea1 < 3" "ea2 < 3" "ea1 \<noteq> a" "ea2 \<noteq> a" "ea1 \<noteq> ea2"
    and parts: "stencil I a f = (((normalStencil I a f @ edgeBlock I a f ea1 0) @ edgeBlock I a f ea1 1)
                         @ edgeBlock I a f ea2 0) @ edgeBlock I a f ea2 1"
    using stencil_parts [OF a, of I f] by blast
  have kN: "snd ` set (normalStencil I a f) \<subseteq> set (normalKeys a f)"
    using keys_normal [of I a f] by (simp add: normalKeys_def)
  have kB1: "snd ` set (edgeBlock I a f ea1 dd) \<subseteq> set (blockKeys a f ea1 dd)" for dd
    using keys_edgeBlock [OF a ea(1) ea(3), of I f dd] by (simp add: blockKeys_def)
  have kB2: "snd ` set (edgeBlock I a f ea2 dd) \<subseteq> set (blockKeys a f ea2 dd)" for dd
    using keys_edgeBlock [OF a ea(2) ea(4), of I f dd] by (simp add: blockKeys_def)
  have dB1: "distinct (map snd (filter (\<lambda>e. snd e \<noteq> (a, f)) (edgeBlock I a f ea1 dd)))" for dd
    using distinct_edgeBlock_keys [OF a ea(1) ea(3), of I f dd] by (rule distinct_map_filter)
  have dB2: "distinct (map snd (filter (\<lambda>e. snd e \<noteq> (a, f)) (edgeBlock I a f ea2 dd)))" for dd
    using distinct_edgeBlock_keys [OF a ea(2) ea(4), of I f dd] by (rule distinct_map_filter)
  note D4 = all_keys_distinct [OF a ea, of f]
  note D3 = distinct_filter_prefix [OF D4]
  note D2 = distinct_filter_prefix [OF D3]
  note D1 = distinct_filter_prefix [OF D2]
  note s1 = distinct_keys_append' [OF distinct_normal_keys dB1 kN kB1 D1]
  note s2 = distinct_keys_append' [OF s1(1) dB1 s1(2) kB1 D2]
  note s3 = distinct_keys_append' [OF s2(1) dB2 s2(2) kB2 D3]
  note s4 = distinct_keys_append' [OF s3(1) dB2 s3(2) kB2 D4]
  show ?thesis unfolding parts by (rule s4(1))
qed

section \<open>The reads that leave the grid\<close>

text \<open>
  Of the neighbours in the stencil of a LIQUID face, those of the cell-centred terms and
  those of the other axis lie in the grid. A neighbour of the face's own axis across an
  edge lies outside exactly when the face is in the first or the last layer along the
  third axis and the edge on that side has positive volume. So the assembly returns a
  system exactly when no LIQUID face has such an edge.
\<close>

lemma liquid_face_position:
  assumes "isLiquid I (a, f)"
  shows "a < 3" "inRange (faceGridSize I a) f" "vget f a \<noteq> 0" "vget f a \<noteq> vget (gridSize I) a"
proof -
  have lab: "materialFaceLabels I a f = LIQUID_FACE" using assms by (simp add: isLiquid_def)
  then show ax: "a < 3" and r: "inRange (faceGridSize I a) f"
    by (auto simp: materialFaceLabels_def split: if_splits)
  have nb: "vget f a \<noteq> 0" "vget f a \<noteq> vget (faceGridSize I a) a - 1"
    using lab by (auto simp: materialFaceLabels_def classifyFace_def split: if_splits)
  show "vget f a \<noteq> 0" by (rule nb)
  obtain nx ny nz where g: "gridSize I = (nx, ny, nz)" by (cases "gridSize I")
  show "vget f a \<noteq> vget (gridSize I) a"
    using nb(2) ax unfolding faceGridSize_def g by (auto simp: axis_cases vinc_def)
qed

lemma normalStencil_in_grid:
  assumes "isLiquid I (a, f)"
  shows "\<forall>e \<in> set (normalStencil I a f). entryInGrid I e"
proof -
  note p = liquid_face_position [OF assms]
  obtain x y z where f: "f = (x, y, z)" by (cases f)
  obtain nx ny nz where g: "gridSize I = (nx, ny, nz)" by (cases "gridSize I")
  show ?thesis
    using p unfolding set_normalStencil f faceGridSize_def g
    by (auto simp: axis_cases entryInGrid_def inFaceGrid_def faceGridSize_def g vinc_def vdec_def)
qed

lemma edgeBlock_in_grid:
  assumes liq: "isLiquid I (a, f)" and ea: "ea < 3" "ea \<noteq> a"
  shows "(\<forall>e \<in> set (edgeBlock I a f ea 0). entryInGrid I e) \<longleftrightarrow>
           (scaledEdgeVolumes I ea f > 0 \<longrightarrow> vget f (3 - a - ea) \<noteq> 0)"
    and "(\<forall>e \<in> set (edgeBlock I a f ea 1). entryInGrid I e) \<longleftrightarrow>
           (scaledEdgeVolumes I ea (vinc f (3 - a - ea)) > 0 \<longrightarrow>
              vget f (3 - a - ea) \<noteq> vget (gridSize I) (3 - a - ea) - 1)"
proof -
  note p = liquid_face_position [OF liq]
  obtain x y z where f: "f = (x, y, z)" by (cases f)
  obtain nx ny nz where g: "gridSize I = (nx, ny, nz)" by (cases "gridSize I")
  note cases = axis_pairs [OF p(1) ea]
  show "(\<forall>e \<in> set (edgeBlock I a f ea 0). entryInGrid I e) \<longleftrightarrow>
           (scaledEdgeVolumes I ea f > 0 \<longrightarrow> vget f (3 - a - ea) \<noteq> 0)"
    unfolding set_edgeBlock [OF p(1) ea]
    using cases p(2,3,4) unfolding f g faceGridSize_def
    by (elim disjE conjE)
      (auto simp: entryInGrid_def inFaceGrid_def faceGridSize_def g faceToEdge_def
        vinc_def vdec_def)
  show "(\<forall>e \<in> set (edgeBlock I a f ea 1). entryInGrid I e) \<longleftrightarrow>
           (scaledEdgeVolumes I ea (vinc f (3 - a - ea)) > 0 \<longrightarrow>
              vget f (3 - a - ea) \<noteq> vget (gridSize I) (3 - a - ea) - 1)"
    unfolding set_edgeBlock [OF p(1) ea]
    using cases p(2,3,4) unfolding f g faceGridSize_def
    by (elim disjE conjE)
      (auto simp: entryInGrid_def inFaceGrid_def faceGridSize_def g faceToEdge_def
        vinc_def vdec_def)
qed


lemma shearStencil_in_grid:
  assumes liq: "isLiquid I (a, f)"
  shows "(\<forall>e \<in> set (shearStencil I a f). entryInGrid I e) \<longleftrightarrow> rimEdgesClear I (a, f)"
proof -
  have a: "a < 3" using liquid_face_position(1) [OF liq] .
  have blk: "(\<forall>e \<in> set (edgeBlock I a f ea 0 @ edgeBlock I a f ea 1). entryInGrid I e) \<longleftrightarrow>
      (let other = 3 - a - ea
       in (vget f other = 0 \<longrightarrow> \<not> scaledEdgeVolumes I ea f > 0)
        \<and> (vget f other = vget (gridSize I) other - 1 \<longrightarrow>
             \<not> scaledEdgeVolumes I ea (vinc f other) > 0))"
    if "ea < 3" "ea \<noteq> a" for ea
    using edgeBlock_in_grid [OF liq that] by (auto simp: Let_def ball_Un)
  have step: "(ea = a \<or> (\<forall>e \<in> set (edgeBlock I a f ea 0 @ edgeBlock I a f ea 1). entryInGrid I e))
      \<longleftrightarrow> (ea = a
          \<or> (let other = 3 - a - ea
              in (vget f other = 0 \<longrightarrow> \<not> scaledEdgeVolumes I ea f > 0)
               \<and> (vget f other = vget (gridSize I) other - 1 \<longrightarrow>
                    \<not> scaledEdgeVolumes I ea (vinc f other) > 0)))"
    if "ea \<in> set [0, 1, 2]" for ea
  proof (cases "ea = a")
    case True
    then show ?thesis by simp
  next
    case False
    have "ea < 3" using that by auto
    then show ?thesis using blk [of ea] False by blast
  qed
  have "(\<forall>e \<in> set (shearStencil I a f). entryInGrid I e) \<longleftrightarrow>
      (\<forall>ea \<in> set [0, 1, 2]. ea = a
         \<or> (\<forall>e \<in> set (edgeBlock I a f ea 0 @ edgeBlock I a f ea 1). entryInGrid I e))"
    unfolding shearStencil_blocks by auto
  also have "\<dots> \<longleftrightarrow> (\<forall>ea \<in> set [0, 1, 2]. ea = a
          \<or> (let other = 3 - a - ea
              in (vget f other = 0 \<longrightarrow> \<not> scaledEdgeVolumes I ea f > 0)
               \<and> (vget f other = vget (gridSize I) other - 1 \<longrightarrow>
                    \<not> scaledEdgeVolumes I ea (vinc f other) > 0)))"
    by (intro ball_cong refl step)
  also have "\<dots> \<longleftrightarrow> rimEdgesClear I (a, f)"
    unfolding rimEdgesClear_def list_all_iff fst_conv snd_conv ..
  finally show ?thesis .
qed

lemma stencilInGrid_iff:
  assumes "isLiquid I k"
  shows "stencilInGrid I k \<longleftrightarrow> rimEdgesClear I k"
proof -
  obtain a f where k: "k = (a, f)" by (cases k)
  show ?thesis
    using normalStencil_in_grid [of I a f] shearStencil_in_grid [of I a f] assms
    unfolding k stencilInGrid_def stencil_def list_all_iff by auto
qed

lemma readsInGrid_rim: "readsInGrid I \<longleftrightarrow> list_all (rimEdgesClear I) (liquidFaces I)"
  unfolding readsInGrid_def list_all_iff
  using stencilInGrid_iff [of I] by (auto simp: set_liquidFaces)

lemma assemble_returns_iff:
  "(\<exists>S. assemble I = Inr S) \<longleftrightarrow> list_all (rimEdgesClear I) (liquidFaces I)"
  by (simp add: assemble_Inr_iff readsInGrid_rim)

section \<open>Symmetry of the assembled matrix\<close>

lemma liquid_axis: "isLiquid I k \<Longrightarrow> fst k < 3"
  using liquid_in_allFaces [of I k] unfolding set_allFaces by (cases k) auto

lemma in_offDiagonal:
  assumes "isLiquid I k"
  shows "t \<in> set (offDiagonal I (faceIndex I k) (stencil I (fst k) (snd k))) \<longleftrightarrow>
     (\<exists>e \<in> set (stencil I (fst k) (snd k)). isLiquid I (snd e) \<and> snd e \<noteq> k
        \<and> t = (faceIndex I k, faceIndex I (snd e), - fst e))"
proof -
  have liq: "isLiquid I (fst k, snd k)" using assms by simp
  show ?thesis
    unfolding offDiagonal_by_label [OF liq] liquidNeighbours_def
    by (simp add: image_iff isLiquid_def del: split_paired_Ex split_paired_All) blast
qed

lemma in_triplets:
  "t \<in> set (sparseElements (systemByRows I)) \<longleftrightarrow>
     (\<exists>k. isLiquid I k \<and>
        (t = (faceIndex I k, faceIndex I k, rowDiagonal I k)
         \<or> (\<exists>e \<in> set (stencil I (fst k) (snd k)). isLiquid I (snd e) \<and> snd e \<noteq> k
               \<and> t = (faceIndex I k, faceIndex I (snd e), - fst e))))"
proof -
  have "t \<in> set (sparseElements (systemByRows I)) \<longleftrightarrow>
      (\<exists>k. isLiquid I k \<and> t \<in> set (rowTriplets I k))"
    by (auto simp: rows_closed set_liquidFaces)
  also have "\<dots> \<longleftrightarrow> (\<exists>k. isLiquid I k \<and>
        (t = (faceIndex I k, faceIndex I k, rowDiagonal I k)
         \<or> t \<in> set (offDiagonal I (faceIndex I k) (stencil I (fst k) (snd k)))))"
    by (simp add: rowTriplets_def)
  also have "\<dots> \<longleftrightarrow> (\<exists>k. isLiquid I k \<and>
        (t = (faceIndex I k, faceIndex I k, rowDiagonal I k)
         \<or> (\<exists>e \<in> set (stencil I (fst k) (snd k)). isLiquid I (snd e) \<and> snd e \<noteq> k
               \<and> t = (faceIndex I k, faceIndex I (snd e), - fst e))))"
    using in_offDiagonal [of I _ t] by blast
  finally show ?thesis .
qed

lemma offdiag_triplet_iff:
  "(i, j, v) \<in> set (sparseElements (systemByRows I)) \<and> i \<noteq> j \<longleftrightarrow>
     (\<exists>k e. isLiquid I k \<and> e \<in> set (stencil I (fst k) (snd k)) \<and> isLiquid I (snd e) \<and> snd e \<noteq> k
        \<and> i = faceIndex I k \<and> j = faceIndex I (snd e) \<and> v = - fst e)"
proof
  assume "(i, j, v) \<in> set (sparseElements (systemByRows I)) \<and> i \<noteq> j"
  then show "\<exists>k e. isLiquid I k \<and> e \<in> set (stencil I (fst k) (snd k)) \<and> isLiquid I (snd e) \<and> snd e \<noteq> k
        \<and> i = faceIndex I k \<and> j = faceIndex I (snd e) \<and> v = - fst e"
    unfolding in_triplets by (simp del: split_paired_Ex split_paired_All) blast
next
  assume "\<exists>k e. isLiquid I k \<and> e \<in> set (stencil I (fst k) (snd k)) \<and> isLiquid I (snd e) \<and> snd e \<noteq> k
        \<and> i = faceIndex I k \<and> j = faceIndex I (snd e) \<and> v = - fst e"
  then obtain k e where ke: "isLiquid I k" "e \<in> set (stencil I (fst k) (snd k))" "isLiquid I (snd e)"
    "snd e \<noteq> k" "i = faceIndex I k" "j = faceIndex I (snd e)" "v = - fst e"
    by blast
  have "i \<noteq> j" using ke faceIndex_inj [of I k "snd e"] by auto
  moreover have "(i, j, v) \<in> set (sparseElements (systemByRows I))"
    unfolding in_triplets using ke by blast
  ultimately show "(i, j, v) \<in> set (sparseElements (systemByRows I)) \<and> i \<noteq> j" by simp
qed

lemma triplets_mirrored:
  assumes "(i, j, v) \<in> set (sparseElements (systemByRows I))" and "i \<noteq> j"
  shows "(j, i, v) \<in> set (sparseElements (systemByRows I))"
proof -
  obtain k e where ke: "isLiquid I k" "e \<in> set (stencil I (fst k) (snd k))" "isLiquid I (snd e)"
    "snd e \<noteq> k" "i = faceIndex I k" "j = faceIndex I (snd e)" "v = - fst e"
    using assms offdiag_triplet_iff [of i j v I] by blast
  obtain c ga g where e: "e = (c, ga, g)" by (cases e)
  have "(c, fst k, snd k) \<in> set (stencil I ga g)"
    using stencil_mirror [OF liquid_axis [OF ke(1)], of c ga g I "snd k"] ke(2) e by simp
  then have "\<exists>k' e'. isLiquid I k' \<and> e' \<in> set (stencil I (fst k') (snd k')) \<and> isLiquid I (snd e')
      \<and> snd e' \<noteq> k' \<and> j = faceIndex I k' \<and> i = faceIndex I (snd e') \<and> v = - fst e'"
    using ke e by (intro exI [of _ "(ga, g)"] exI [of _ "(c, k)"]) (simp del: split_paired_Ex split_paired_All)
  then show ?thesis using offdiag_triplet_iff [of j i v I] by blast
qed

lemma no_key: "q \<notin> snd ` set xs \<Longrightarrow> filter (\<lambda>e. snd e = q) xs = []"
  by (induction xs) auto

lemma single_key:
  "distinct (map snd xs) \<Longrightarrow> (c, q) \<in> set xs \<Longrightarrow> filter (\<lambda>e. snd e = q) xs = [(c, q)]"
proof (induction xs)
  case Nil
  then show ?case by simp
next
  case (Cons x xs)
  show ?case
  proof (cases "x = (c, q)")
    case True
    then have "q \<notin> snd ` set xs" using Cons.prems(1) by simp
    then show ?thesis using True no_key [of q xs] by simp
  next
    case False
    then have mem: "(c, q) \<in> set xs" using Cons.prems(2) by simp
    then have "q \<in> snd ` set xs" by force
    then have "snd x \<noteq> q" using Cons.prems(1) by auto
    then show ?thesis using Cons.IH mem Cons.prems(1) by simp
  qed
qed

lemma coefficientTo_cases:
  assumes "fst k < 3" and "k' \<noteq> k"
  shows "(\<exists>c. (c, k') \<in> set (stencil I (fst k) (snd k)) \<and> coefficientTo I k k' = c)
       \<or> (k' \<notin> snd ` set (stencil I (fst k) (snd k)) \<and> coefficientTo I k k' = 0)"
proof -
  let ?st = "stencil I (fst k) (snd k)"
  let ?xs = "filter (\<lambda>e. snd e \<noteq> k) ?st"
  have d: "distinct (map snd ?xs)"
    using stencil_distinct [OF assms(1), of "snd k" I] by simp
  have f: "filter (\<lambda>e. snd e = k') ?st = filter (\<lambda>e. snd e = k') ?xs"
  proof -
    have "filter (\<lambda>e. snd e = k') ?xs = filter (\<lambda>e. snd e \<noteq> k \<and> snd e = k') ?st"
      by simp
    also have "\<dots> = filter (\<lambda>e. snd e = k') ?st"
      by (rule filter_cong) (use assms(2) in auto)
    finally show ?thesis by simp
  qed
  show ?thesis
  proof (cases "k' \<in> snd ` set ?st")
    case True
    then obtain c where c: "(c, k') \<in> set ?st" by force
    then have "(c, k') \<in> set ?xs" using assms(2) by simp
    then have "filter (\<lambda>e. snd e = k') ?xs = [(c, k')]" using single_key [OF d] by blast
    then have "coefficientTo I k k' = c" by (simp add: coefficientTo_def f)
    then show ?thesis using c by blast
  next
    case False
    then have "coefficientTo I k k' = 0" by (simp add: coefficientTo_def no_key)
    then show ?thesis using False by blast
  qed
qed

lemma stencil_mirror_key:
  assumes "fst k < 3" and "(c, k') \<in> set (stencil I (fst k) (snd k))"
  shows "(c, k) \<in> set (stencil I (fst k') (snd k')) \<and> fst k' < 3"
  using stencil_mirror [OF assms(1), of c "fst k'" "snd k'" I "snd k"] assms(2) by simp

lemma coefficientTo_sym:
  assumes "fst k < 3" "fst k' < 3" "k' \<noteq> k"
  shows "coefficientTo I k k' = coefficientTo I k' k"
proof -
  have one: "coefficientTo I q q' = c"
    if "fst q < 3" "fst q' < 3" "q' \<noteq> q" "(c, q') \<in> set (stencil I (fst q) (snd q))" for q q' c
  proof -
    from coefficientTo_cases [OF that(1) that(3), of I] that(4)
    obtain c' where c': "(c', q') \<in> set (stencil I (fst q) (snd q))" "coefficientTo I q q' = c'"
      by force
    let ?xs = "filter (\<lambda>e. snd e \<noteq> q) (stencil I (fst q) (snd q))"
    have d: "distinct (map snd ?xs)"
      using stencil_distinct [OF that(1), of "snd q" I] by simp
    have "(c, q') \<in> set ?xs" "(c', q') \<in> set ?xs" using that(3,4) c'(1) by simp_all
    then have "[(c, q')] = [(c', q')]" using single_key [OF d] by metis
    then show ?thesis using c'(2) by simp
  qed
  show ?thesis
  proof (cases "k' \<in> snd ` set (stencil I (fst k) (snd k))")
    case True
    then obtain c where c: "(c, k') \<in> set (stencil I (fst k) (snd k))" by force
    then have "(c, k) \<in> set (stencil I (fst k') (snd k'))"
      using stencil_mirror_key [OF assms(1)] by blast
    then show ?thesis
      using one [OF assms(1) assms(2) assms(3) c] one [OF assms(2) assms(1), of c] assms(3) by simp
  next
    case False
    have "k \<notin> snd ` set (stencil I (fst k') (snd k'))"
    proof
      assume "k \<in> snd ` set (stencil I (fst k') (snd k'))"
      then obtain c where "(c, k) \<in> set (stencil I (fst k') (snd k'))" by force
      then have "(c, k') \<in> set (stencil I (fst k) (snd k))"
        using stencil_mirror_key [OF assms(2)] by blast
      then show False using False by force
    qed
    then show ?thesis
      using False coefficientTo_cases [OF assms(1) assms(3), of I]
        coefficientTo_cases [OF assms(2), of k I] assms(3) by force
  qed
qed

lemma matrixEntry_row:
  "matrixEntry T i j =
     sum_list (map (\<lambda>t. snd (snd t)) (filter (\<lambda>t. fst (snd t) = j) (filter (\<lambda>t. fst t = i) T)))"
  by (simp add: matrixEntry_def conj_commute)

lemma sum_list_neg: "(\<Sum>e\<leftarrow>xs. - f e) = - (\<Sum>e\<leftarrow>xs. (f e :: real))"
  by (induction xs) simp_all

lemma entry_liquid:
  assumes k: "isLiquid I k" and k': "isLiquid I k'" and ne: "k' \<noteq> k"
  shows "matrixEntry (sparseElements (systemByRows I)) (faceIndex I k) (faceIndex I k')
           = - coefficientTo I k k'"
proof -
  let ?i = "faceIndex I k" and ?j = "faceIndex I k'"
  let ?st = "stencil I (fst k) (snd k)"
  have ij: "?j \<noteq> ?i" using faceIndex_inj [OF k' k] ne by blast
  have key: "(0 \<le> faceIndex I (snd e) \<and> faceIndex I (snd e) \<noteq> ?i \<and> faceIndex I (snd e) = ?j)
             = (snd e = k')" for e :: stencil_entry
    using faceIndex_inj [of I "snd e" k'] faceIndex_nonneg_iff [of I "snd e"]
      faceIndex_nonneg_iff [of I k'] k' ij by auto
  have "filter (\<lambda>t. fst (snd t) = ?j) (rowTriplets I k)
        = map (\<lambda>e. (?i, faceIndex I (snd e), - fst e)) (filter (\<lambda>e. snd e = k') ?st)"
    using ij by (simp add: rowTriplets_def offDiagonal_def filter_map comp_def key)
  then show ?thesis
    by (simp add: matrixEntry_row row_of_face [OF k] coefficientTo_def comp_def sum_list_neg)
qed

lemma triplet_faces:
  assumes "t \<in> set (sparseElements (systemByRows I))"
  shows "\<exists>k k'. isLiquid I k \<and> isLiquid I k' \<and> fst t = faceIndex I k \<and> fst (snd t) = faceIndex I k'"
proof -
  obtain k where k: "isLiquid I k" "t = (faceIndex I k, faceIndex I k, rowDiagonal I k)
         \<or> (\<exists>e \<in> set (stencil I (fst k) (snd k)). isLiquid I (snd e) \<and> snd e \<noteq> k
               \<and> t = (faceIndex I k, faceIndex I (snd e), - fst e))"
    using assms unfolding in_triplets by blast
  from k(2) show ?thesis
  proof
    assume "t = (faceIndex I k, faceIndex I k, rowDiagonal I k)"
    then have "isLiquid I k \<and> isLiquid I k \<and> fst t = faceIndex I k \<and> fst (snd t) = faceIndex I k"
      using k(1) by simp
    then show ?thesis by blast
  next
    assume "\<exists>e \<in> set (stencil I (fst k) (snd k)). isLiquid I (snd e) \<and> snd e \<noteq> k
               \<and> t = (faceIndex I k, faceIndex I (snd e), - fst e)"
    then obtain e where "isLiquid I (snd e)" "t = (faceIndex I k, faceIndex I (snd e), - fst e)"
      by blast
    then have "isLiquid I k \<and> isLiquid I (snd e) \<and> fst t = faceIndex I k
        \<and> fst (snd t) = faceIndex I (snd e)"
      using k(1) by simp
    then show ?thesis by blast
  qed
qed

lemma triplet_range:
  assumes "(i, j, v) \<in> set (sparseElements (systemByRows I))"
  shows "0 \<le> i \<and> i < liquidDOFCount I \<and> 0 \<le> j \<and> j < liquidDOFCount I"
proof -
  obtain k k' where k: "isLiquid I k" "isLiquid I k'" "i = faceIndex I k" "j = faceIndex I k'"
    using triplet_faces [OF assms] by auto
  then show ?thesis
    using faceIndex_less [of I k] faceIndex_less [of I k']
      faceIndex_nonneg_iff [of I k] faceIndex_nonneg_iff [of I k'] by simp
qed

lemma entry_outside:
  assumes "\<not> (\<exists>k. isLiquid I k \<and> faceIndex I k = i) \<or> \<not> (\<exists>k. isLiquid I k \<and> faceIndex I k = j)"
  shows "matrixEntry (sparseElements (systemByRows I)) i j = 0"
proof -
  have "\<not> (fst t = i \<and> fst (snd t) = j)" if "t \<in> set (sparseElements (systemByRows I))" for t
    using triplet_faces [OF that] assms by metis
  then have "filter (\<lambda>t. fst t = i \<and> fst (snd t) = j) (sparseElements (systemByRows I)) = []"
    by (simp add: filter_empty_conv del: split_paired_All)
  then show ?thesis by (simp add: matrixEntry_def)
qed

lemma matrix_symmetric:
  "matrixEntry (sparseElements (systemByRows I)) i j = matrixEntry (sparseElements (systemByRows I)) j i"
proof (cases "i = j")
  case True
  then show ?thesis by simp
next
  case False
  show ?thesis
  proof (cases "(\<exists>k. isLiquid I k \<and> faceIndex I k = i) \<and> (\<exists>k. isLiquid I k \<and> faceIndex I k = j)")
    case True
    then obtain k k' where k: "isLiquid I k" "faceIndex I k = i" "isLiquid I k'" "faceIndex I k' = j"
      by blast
    then have ne: "k' \<noteq> k" using False by auto
    show ?thesis
      using entry_liquid [OF k(1) k(3) ne] entry_liquid [OF k(3) k(1)] ne k
        coefficientTo_sym [OF liquid_axis [OF k(1)] liquid_axis [OF k(3)] ne, of I]
      by simp
  next
    case False
    then have a: "\<not> (\<exists>k. isLiquid I k \<and> faceIndex I k = i) \<or> \<not> (\<exists>k. isLiquid I k \<and> faceIndex I k = j)"
      by blast
    then have b: "\<not> (\<exists>k. isLiquid I k \<and> faceIndex I k = j) \<or> \<not> (\<exists>k. isLiquid I k \<and> faceIndex I k = i)"
      by blast
    show ?thesis using entry_outside [OF a] entry_outside [OF b] by simp
  qed
qed

text \<open>
  Claim C6. Let the assembly return the system \<open>S\<close>. Every triplet recorded off the
  diagonal, \<open>(i, j, v)\<close> with \<open>i \<noteq> j\<close>, has its mirror \<open>(j, i, v)\<close> among the
  recorded triplets, with the same value; the matrix that sums the triplets of each
  position has equal entries at \<open>(i, j)\<close> and \<open>(j, i)\<close> for all \<open>i\<close> and \<open>j\<close>; and
  every recorded row and column lies in the range of the degrees of freedom. The values
  are real numbers here, so the two sides are equal exactly; rounding is not modelled.
  An assembly that stops at a read outside the grid returns no matrix.
\<close>

theorem assembled_matrix_is_symmetric:
  assumes "assemble I = Inr S"
  shows "((i, j, v) \<in> set (sparseElements S) \<and> i \<noteq> j \<longrightarrow> (j, i, v) \<in> set (sparseElements S))
   \<and> matrixEntry (sparseElements S) i j = matrixEntry (sparseElements S) j i
   \<and> ((i, j, v) \<in> set (sparseElements S) \<longrightarrow>
        0 \<le> i \<and> i < liquidDOFCount I \<and> 0 \<le> j \<and> j < liquidDOFCount I)"
proof -
  have S: "S = systemByRows I" using assms by (simp add: assemble_Inr_iff)
  show ?thesis
    unfolding S
    using triplets_mirrored [of i j v I] matrix_symmetric [of I i j] triplet_range [of i j v I]
    by blast
qed

theorem assembled_matrix_is_symmetric_witness:
  "assemble exampleInputs = Inr exampleSystem
   \<and> (0, 2, 1) \<in> set (sparseElements exampleSystem)
   \<and> (2, 0, 1) \<in> set (sparseElements exampleSystem)
   \<and> matrixEntry (sparseElements exampleSystem) 0 2 = 1
   \<and> matrixEntry (sparseElements exampleSystem) 2 0 = 1
   \<and> liquidDOFCount exampleInputs = 3"
proof -
  have m: "(0, 2, 1) \<in> set (sparseElements exampleSystem)"
    by (simp add: exampleSystem_def)
  have e: "matrixEntry (sparseElements exampleSystem) 0 2 = 1"
    by (simp add: exampleSystem_def matrixEntry_def)
  show ?thesis
    using assembled_matrix_is_symmetric [OF example_assemble, of 0 2 1] m e
    by (simp add: example_count example_assemble)
qed

section \<open>The system without viscous coupling\<close>

text \<open>
  When the viscosity is zero at every cell and edge, or the timestep is zero, and the
  supersampled volumes are not negative, the prescaled center and edge volumes are all
  zero. The stencils are then empty, so the assembly reads no neighbour and returns: the
  only triplets are the diagonal ones, with the face volume as value, the right-hand side
  is the face volume times the velocity, and the initial guess satisfies every equation of
  the system exactly. What the velocity is after the call is then up to the solver: it is
  the velocity before the call when the solver fails, and also when it returns its guess.
\<close>

lemma zero_viscosity_scaled:
  assumes "viscosity I = (\<lambda>cell. 0)" and "viscosityAtEdge I = (\<lambda>axis edge. 0)"
    and "\<And>cell. 0 \<le> centerVolumes I cell" and "\<And>axis edge. 0 \<le> edgeVolumes I axis edge"
  shows "scaledCenterVolumes I cell = 0" and "scaledEdgeVolumes I edgeAxis edge = 0"
  using assms(3) [of cell] assms(4) [of edgeAxis edge]
  by (simp_all add: scaledCenterVolumes_def scaledEdgeVolumes_def assms(1,2))

lemma zero_timestep_scaled:
  assumes "dt I = 0"
    and "\<And>cell. 0 \<le> centerVolumes I cell" and "\<And>axis edge. 0 \<le> edgeVolumes I axis edge"
  shows "scaledCenterVolumes I cell = 0" and "scaledEdgeVolumes I edgeAxis edge = 0"
  using assms(2) [of cell] assms(3) [of edgeAxis edge]
  by (simp_all add: scaledCenterVolumes_def scaledEdgeVolumes_def discreteScalar_def assms(1))

lemma uncoupled_stencil:
  assumes "\<And>cell. scaledCenterVolumes I cell = 0" and "\<And>axis edge. scaledEdgeVolumes I axis edge = 0"
  shows "stencil I a f = []"
  by (simp add: stencil_def normalStencil_def shearStencil_def Let_def assms)

lemma uncoupled_system:
  assumes "\<And>cell. scaledCenterVolumes I cell = 0" and "\<And>axis edge. scaledEdgeVolumes I axis edge = 0"
  shows "assemble I =
     Inr \<lparr>sparseElements =
            map (\<lambda>k. (faceIndex I k, faceIndex I k, faceVolumes I (fst k) (snd k))) (liquidFaces I),
          initialGuessVector = map (faceVelocity I) (liquidFaces I),
          rhsVector = map (\<lambda>k. faceVolumes I (fst k) (snd k) * faceVelocity I k) (liquidFaces I)\<rparr>"
proof -
  have st: "stencil I a f = []" for a f
    using assms by (rule uncoupled_stencil)
  have reads: "readsInGrid I"
    by (simp add: readsInGrid_def stencilInGrid_def st list_all_iff)
  have row: "rowTriplets I = (\<lambda>k. [(faceIndex I k, faceIndex I k, faceVolumes I (fst k) (snd k))])"
    by (simp add: fun_eq_iff rowTriplets_def rowDiagonal_def st offDiagonal_def diagonalPart_def)
  have T: "concat (map (rowTriplets I) (liquidFaces I)) =
           map (\<lambda>k. (faceIndex I k, faceIndex I k, faceVolumes I (fst k) (snd k))) (liquidFaces I)"
    unfolding row by (induction "liquidFaces I") simp_all
  have rhs: "rowRhs I = (\<lambda>k. faceVolumes I (fst k) (snd k) * faceVelocity I k)"
    by (simp add: fun_eq_iff rowRhs_def st solidPart_def)
  show ?thesis
    unfolding assemble_returns [OF reads] systemByRows_def T rhs ..
qed

lemma guess_solves_uncoupled_system:
  assumes "\<And>cell. scaledCenterVolumes I cell = 0" and "\<And>axis edge. scaledEdgeVolumes I axis edge = 0"
    and "assemble I = Inr S" and "i < length (liquidFaces I)"
  shows "matrixEntry (sparseElements S) (int i) (int i) * initialGuessVector S ! i = rhsVector S ! i"
    and "j \<noteq> int i \<Longrightarrow> matrixEntry (sparseElements S) (int i) j = 0"
proof -
  let ?k = "liquidFaces I ! i"
  have S: "S = systemByRows I" using assms(3) by (simp add: assemble_Inr_iff)
  have liq: "isLiquid I ?k" using assms(4) by (rule nth_liquidFaces_liquid)
  have idx: "faceIndex I ?k = int i" using assms(4) by (rule faceIndex_nth)
  have st: "stencil I a f = []" for a f
    using assms(1,2) by (rule uncoupled_stencil)
  have row: "filter (\<lambda>t. fst t = int i) (sparseElements S)
        = [(int i, int i, faceVolumes I (fst ?k) (snd ?k))]"
    using row_of_face [OF liq]
    by (simp add: S idx rowTriplets_def rowDiagonal_def st offDiagonal_def diagonalPart_def)
  have d: "matrixEntry (sparseElements S) (int i) (int i) = faceVolumes I (fst ?k) (snd ?k)"
    by (simp add: matrixEntry_row row)
  have vec: "initialGuessVector S ! i = faceVelocity I ?k"
    "rhsVector S ! i = faceVolumes I (fst ?k) (snd ?k) * faceVelocity I ?k"
    using assms(4) by (simp_all add: S rows_closed rowRhs_def st solidPart_def)
  show "matrixEntry (sparseElements S) (int i) (int i) * initialGuessVector S ! i = rhsVector S ! i"
    unfolding d vec ..
  show "matrixEntry (sparseElements S) (int i) j = 0" if "j \<noteq> int i"
    using that by (simp add: matrixEntry_row row)
qed

lemma returned_guess_keeps_velocity:
  assumes "assemble I = Inr S"
    and "solutionVector (solved solver I S) = initialGuessVector S"
  shows "\<exists>out. ViscositySolver solver I = Inr out \<and> velocityAfter out = velocity I"
proof -
  have S: "S = systemByRows I" using assms(1) by (simp add: assemble_Inr_iff)
  have "scatter I (initialGuessVector S) a f = velocity I a f" for a f
  proof (cases "isLiquid I (a, f)")
    case True
    then have p: "indexOf (liquidFaces I) (a, f) < length (liquidFaces I)"
      "liquidFaces I ! indexOf (liquidFaces I) (a, f) = (a, f)"
      by (simp_all add: indexOf_less nth_indexOf set_liquidFaces)
    show ?thesis
      using True p nat_faceIndex [OF True] by (simp add: scatter_def S rows_closed)
  next
    case False
    then have "\<not> 0 \<le> liquidFaceIndices I a f"
      using faceIndex_nonneg_iff [of I "(a, f)"] by simp
    then show ?thesis by (simp add: scatter_def)
  qed
  then have "scatter I (initialGuessVector S) = velocity I"
    by (simp add: fun_eq_iff)
  then show ?thesis
    using assms by (simp add: ViscositySolver_def solved_def Let_def)
qed

section \<open>The assertions inside the loops\<close>

text \<open>
  The assertions of lines 168, 321 and 276 (a face with an index is LIQUID, a face without
  one is not) and of line 187 (the cells adjacent to a face with an index lie in the grid
  along the face's axis) hold on every input, so the model has no branch for them.
\<close>

lemma source_assertions_hold:
  "0 \<le> liquidFaceIndices I axis face \<longrightarrow> materialFaceLabels I axis face = LIQUID_FACE"
  "\<not> 0 \<le> liquidFaceIndices I axis face \<longrightarrow> materialFaceLabels I axis face \<noteq> LIQUID_FACE"
  "0 \<le> liquidFaceIndices I axis face \<longrightarrow>
     (\<forall>direction \<in> {0, 1}.
        0 \<le> vget (faceToCell face axis direction) axis
        \<and> vget (faceToCell face axis direction) axis < vget (gridSize I) axis)"
proof -
  show 1: "0 \<le> liquidFaceIndices I axis face \<longrightarrow> materialFaceLabels I axis face = LIQUID_FACE"
    using faceIndex_nonneg_iff [of I "(axis, face)"] by (simp add: isLiquid_def)
  show "\<not> 0 \<le> liquidFaceIndices I axis face \<longrightarrow> materialFaceLabels I axis face \<noteq> LIQUID_FACE"
    using faceIndex_nonneg_iff [of I "(axis, face)"] by (simp add: isLiquid_def)
  show "0 \<le> liquidFaceIndices I axis face \<longrightarrow>
     (\<forall>direction \<in> {0, 1}.
        0 \<le> vget (faceToCell face axis direction) axis
        \<and> vget (faceToCell face axis direction) axis < vget (gridSize I) axis)"
  proof
    assume "0 \<le> liquidFaceIndices I axis face"
    then have lab: "materialFaceLabels I axis face = LIQUID_FACE" using 1 by simp
    then have ax: "axis < 3" and r: "inRange (faceGridSize I axis) face"
      and nb: "vget face axis \<noteq> 0" "vget face axis \<noteq> vget (faceGridSize I axis) axis - 1"
      by (auto simp: materialFaceLabels_def classifyFace_def split: if_splits)
    obtain x y z where f: "face = (x, y, z)" by (cases face)
    obtain nx ny nz where g: "gridSize I = (nx, ny, nz)" by (cases "gridSize I")
    show "\<forall>direction \<in> {0, 1}.
        0 \<le> vget (faceToCell face axis direction) axis
        \<and> vget (faceToCell face axis direction) axis < vget (gridSize I) axis"
      using ax r nb unfolding f g faceGridSize_def
      by (auto simp: axis_cases faceToCell_def vinc_def vdec_def g)
  qed
qed

end
